theory Spec2Isabelle
  imports Main "HOL-Library.Multiset" "HOL-Library.Finite_Map"
begin

section \<open>The shuffler\<close>

text \<open>
  \<^verbatim>\<open>Math.random()\<close> is the only source of nondeterminism of the assessment and quiz
  code. The model makes it an explicit argument: an \<open>rng\<close> is the sequence of the draws
  still to come, and a draw hands back the rest of the sequence. The source computes
  \<^verbatim>\<open>Math.floor(Math.random() * currentIndex)\<close>, which is some index below
  \<open>currentIndex\<close>; the model reduces the next element of the sequence modulo
  \<open>currentIndex\<close>, so that every index below \<open>currentIndex\<close> is the outcome of some
  sequence and no other value is. A theorem that holds for every \<open>rng\<close> holds for every
  run of the program.
\<close>

type_synonym rng = "nat \<Rightarrow> nat"

definition randomBelow :: "rng \<Rightarrow> nat \<Rightarrow> nat \<times> rng" where
  "randomBelow g n = (g 0 mod n, \<lambda>i. g (Suc i))"

text \<open>
  The loop of \<^verbatim>\<open>shuffleArray\<close>: \<open>currentIndex\<close> counts down to 0; each round draws
  \<open>randomIndex\<close>, decrements \<open>currentIndex\<close> and swaps the two cells. The destructuring
  assignment reads both cells before it writes either.
\<close>

fun shuffleLoop :: "rng \<Rightarrow> nat \<Rightarrow> 'a list \<Rightarrow> 'a list \<times> rng" where
  "shuffleLoop g 0 newArray = (newArray, g)"
| "shuffleLoop g (Suc currentIndex) newArray =
     (case randomBelow g (Suc currentIndex) of (randomIndex, g') \<Rightarrow>
        shuffleLoop g' currentIndex
          (newArray[currentIndex := newArray ! randomIndex,
                    randomIndex := newArray ! currentIndex]))"

definition shuffleArray :: "rng \<Rightarrow> 'a list \<Rightarrow> 'a list \<times> rng" where
  "shuffleArray g array = shuffleLoop g (length array) array"

text \<open>
  The same function over an explicit store, for the question whether the argument is
  mutated. A store is the list of the arrays allocated so far and a reference is a
  position in it; \<^verbatim>\<open>[...array]\<close> allocates a new array holding a copy, and the
  loop writes through the new reference only.
\<close>

type_synonym 'a store = "'a list list"

fun shuffleLoopRef :: "rng \<Rightarrow> nat \<Rightarrow> 'a store \<Rightarrow> nat \<Rightarrow> 'a store \<times> rng" where
  "shuffleLoopRef g 0 s newArray = (s, g)"
| "shuffleLoopRef g (Suc currentIndex) s newArray =
     (case randomBelow g (Suc currentIndex) of (randomIndex, g') \<Rightarrow>
        shuffleLoopRef g' currentIndex
          (s[newArray := (s ! newArray)[currentIndex := s ! newArray ! randomIndex,
                                         randomIndex := s ! newArray ! currentIndex]])
          newArray)"

definition shuffleArrayRef :: "rng \<Rightarrow> 'a store \<Rightarrow> nat \<Rightarrow> nat \<times> 'a store \<times> rng" where
  "shuffleArrayRef g s array =
     (let newArray = length s;
          s' = s @ [s ! array]
      in case shuffleLoopRef g (length (s ! array)) s' newArray of
           (s'', g') \<Rightarrow> (newArray, s'', g'))"

section \<open>Strings\<close>

text \<open>
  A JavaScript string is modelled as a \<open>string\<close>, a list of characters with codes 0 to
  255 (the code units of the Latin-1 range). Template literals interpolate numbers in
  decimal.
\<close>

definition digitChar :: "nat \<Rightarrow> char" where
  "digitChar d = ''0123456789'' ! d"

fun decimal :: "nat \<Rightarrow> string" where
  "decimal n = (if n < 10 then [digitChar n] else decimal (n div 10) @ [digitChar (n mod 10)])"

declare decimal.simps [simp del]

definition quote :: string where
  "quote = [CHR 0x22]"

text \<open>
  \<^verbatim>\<open>toLowerCase\<close> and the case folding of a regular expression with the \<^verbatim>\<open>i\<close> flag
  (which compares the upper-case forms). In the Latin-1 range the letters are a-z and
  0xE0-0xFE without the division sign 0xF7; the upper-case forms of 0xB5, 0xDF and 0xFF
  are no single code unit of the range, so those characters fold to themselves.
\<close>

definition canonicalize :: "char \<Rightarrow> char" where
  "canonicalize ch =
     (let n = (of_char ch :: nat)
      in if (97 \<le> n \<and> n \<le> 122) \<or> (224 \<le> n \<and> n \<le> 254 \<and> n \<noteq> 247)
         then char_of (n - 32) else ch)"

definition toLowerChar :: "char \<Rightarrow> char" where
  "toLowerChar ch =
     (let n = (of_char ch :: nat)
      in if (65 \<le> n \<and> n \<le> 90) \<or> (192 \<le> n \<and> n \<le> 222 \<and> n \<noteq> 215)
         then char_of (n + 32) else ch)"

definition toLowerCase :: "string \<Rightarrow> string" where
  "toLowerCase s = map toLowerChar s"

text \<open>\<^verbatim>\<open>trim\<close> removes white space and line terminators at both ends: tab, line feed,
  vertical tab, form feed, carriage return, space and no-break space.\<close>

definition isWhiteSpace :: "char \<Rightarrow> bool" where
  "isWhiteSpace c = ((of_char c :: nat) \<in> {9, 10, 11, 12, 13, 32, 160})"

definition trim :: "string \<Rightarrow> string" where
  "trim s = rev (dropWhile isWhiteSpace (rev (dropWhile isWhiteSpace s)))"

section \<open>Regular expressions built from a term\<close>

datatype error = TypeError | SyntaxError

definition blankMarker :: string where
  "blankMarker = ''_____''"

text \<open>\<^verbatim>\<open>.replace(/\*\*/g, '')\<close>: every non-overlapping pair of stars, scanning from the
  left, is removed.\<close>

fun stripEmphasis :: "string \<Rightarrow> string" where
  "stripEmphasis (a # b # s) =
     (if a = CHR ''*'' \<and> b = CHR ''*'' then stripEmphasis s else a # stripEmphasis (b # s))"
| "stripEmphasis s = s"

text \<open>
  \<^verbatim>\<open>new RegExp(term.term, 'ig')\<close> reads the term text as the source of a pattern. The
  characters with a meaning in a pattern are the syntax characters below. A source
  without any of them is a literal: it matches the strings equal to it up to case.
\<close>

definition syntaxCharacter :: "char \<Rightarrow> bool" where
  "syntaxCharacter c = (c \<in> set ''^$.*+?()[]{}|'' \<or> c = CHR 0x5C)"

definition literalPattern :: "string \<Rightarrow> bool" where
  "literalPattern p = (\<not> list_ex syntaxCharacter p)"

fun matchesAt :: "string \<Rightarrow> string \<Rightarrow> bool" where
  "matchesAt [] s = True"
| "matchesAt (p # ps) [] = False"
| "matchesAt (p # ps) (c # cs) = (canonicalize p = canonicalize c \<and> matchesAt ps cs)"

text \<open>
  \<^verbatim>\<open>s.replace(re, '_____')\<close> for a global, case-insensitive literal \<open>re\<close>: the matches
  are found from left to right, each search starting where the last match ended; an
  empty match moves the search on by one character. The replacement text holds no
  dollar sign, so it is inserted as it is.
\<close>

fun replaceLiteral :: "string \<Rightarrow> string \<Rightarrow> string" where
  "replaceLiteral p [] = (if p = [] then blankMarker else [])"
| "replaceLiteral p (c # cs) =
     (if p = [] then blankMarker @ c # replaceLiteral p cs
      else if matchesAt p (c # cs) then blankMarker @ replaceLiteral p (drop (length p) (c # cs))
      else c # replaceLiteral p cs)"

text \<open>
  A source in which a quantifier (\<^verbatim>\<open>*\<close>, \<^verbatim>\<open>+\<close>, \<^verbatim>\<open>?\<close>) has nothing to repeat is
  rejected by the constructor with a SyntaxError. The scan below reads the source up to
  its first syntax character that is no quantifier: before that point a quantifier may
  follow a plain character, and a \<^verbatim>\<open>?\<close> may follow a quantifier (making it lazy);
  any other quantifier has nothing to repeat.
\<close>

datatype scan = NoAtom | AfterAtom | AfterQuantifier

fun nothingToRepeat :: "scan \<Rightarrow> string \<Rightarrow> bool" where
  "nothingToRepeat st [] = False"
| "nothingToRepeat st (c # cs) =
     (if c = CHR ''*'' \<or> c = CHR ''+'' \<or> c = CHR ''?'' then
        (case st of
           NoAtom \<Rightarrow> True
         | AfterAtom \<Rightarrow> nothingToRepeat AfterQuantifier cs
         | AfterQuantifier \<Rightarrow> (if c = CHR ''?'' then nothingToRepeat NoAtom cs else True))
      else if syntaxCharacter c then False
      else nothingToRepeat AfterAtom cs)"

text \<open>
  The regular-expression engine itself is not part of the repository. For the sources
  that are neither literal nor rejected by the scan above, what
  \<^verbatim>\<open>s.replace(new RegExp(source, 'ig'), '_____')\<close> does (a string, or an error from
  the constructor) is a parameter \<open>engine\<close> of the model, and every theorem holds for
  every engine.
\<close>

type_synonym engine = "string \<Rightarrow> string \<Rightarrow> error + string"

definition replaceTerm :: "engine \<Rightarrow> string \<Rightarrow> string \<Rightarrow> error + string" where
  "replaceTerm engine source s =
     (if literalPattern source then Inr (replaceLiteral source s)
      else if nothingToRepeat NoAtom source then Inl SyntaxError
      else engine source s)"

section \<open>The blanking as the specification words it\<close>

text \<open>
  The specification says that every case-insensitive occurrence of the term's surface
  text is replaced with a blank marker. Read from left to right: the term occurs at the
  head of a string when the first characters of the string, as many as the term has,
  are the term after lower-casing both; an occurrence is replaced by the marker and the
  reading goes on behind it; otherwise one character is kept. This second definition is
  compared with \<open>replaceLiteral\<close> below.
\<close>

definition occursAt :: "string \<Rightarrow> string \<Rightarrow> bool" where
  "occursAt w s = (toLowerCase (take (length w) s) = toLowerCase w)"

function blankOccurrences :: "string \<Rightarrow> string \<Rightarrow> string" where
  "blankOccurrences w s =
     (if w = [] \<or> s = [] then s
      else if occursAt w s then blankMarker @ blankOccurrences w (drop (length w) s)
      else hd s # blankOccurrences w (tl s))"
  by pat_completeness auto
termination
  by (relation "measure (\<lambda>(w, s). length s)") auto

declare blankOccurrences.simps [simp del]

section \<open>Data model\<close>

text \<open>
  The types of \<^verbatim>\<open>types.ts\<close> that the assessment and the quiz read. Fields that this
  code never reads (of \<^verbatim>\<open>Details\<close>: the word family, synonyms and so on; of
  \<^verbatim>\<open>TermData\<close>: status, images and time stamps) are left out. An object indexed by
  keys is a finite map. The fields \<^verbatim>\<open>term\<close>, \<^verbatim>\<open>definition\<close> and \<^verbatim>\<open>id\<close> carry a
  prefix, their names being taken in Isabelle; a local variable that has the name of a
  field carries a prime.
\<close>

record Meaning =
  partOfSpeech :: string
  meaning_definition :: string

record Details =
  examples :: "string list"

record TermData =
  term_text :: string
  phonetic :: string
  syllables :: string
  meanings :: "Meaning list"
  details :: "(nat, Details) fmap option"

datatype MatchItem = MatchItem (item_id: string) (item_term: string)

datatype MatchTarget = MatchTarget (target_id: string) (target_definition: string)

datatype AssessmentQuestion =
    MCQ (qid: string) (question: string) (options: "string list") (correctAnswer: string)
  | FillBlank (qid: string) (sentence: string) (correctAnswer: string)
  | Match (qid: string) (instruction: string) (items: "MatchItem list")
      (targets: "MatchTarget list") (correctPairs: "(string, string) fmap")
  | Written (qid: string) (prompt: string) (modelAnswer: string)

record AssessmentData =
  title :: string
  questions :: "AssessmentQuestion list"

section \<open>The assessment composer\<close>

text \<open>\<^verbatim>\<open>xs.map((x, i) => ...)\<close> and \<^verbatim>\<open>xs.forEach((x, i) => ...)\<close> pass each element
  with its position.\<close>

definition indexed :: "'a list \<Rightarrow> ('a \<times> nat) list" where
  "indexed xs = zip xs [0..<length xs]"

fun mapE :: "('a \<Rightarrow> error + 'b) \<Rightarrow> 'a list \<Rightarrow> error + 'b list" where
  "mapE f [] = Inr []"
| "mapE f (x # xs) =
     (case f x of
        Inl e \<Rightarrow> Inl e
      | Inr y \<Rightarrow> (case mapE f xs of Inl e \<Rightarrow> Inl e | Inr ys \<Rightarrow> Inr (y # ys)))"

text \<open>\<^verbatim>\<open>t.meanings[0].definition\<close>: reading a field of \<^verbatim>\<open>undefined\<close> throws a
  TypeError when the term has no meaning.\<close>

definition firstDefinition :: "TermData \<Rightarrow> error + string" where
  "firstDefinition t =
     (case meanings t of [] \<Rightarrow> Inl TypeError | m # _ \<Rightarrow> Inr (meaning_definition m))"

text \<open>\<^verbatim>\<open>term.details?.[0]?.examples?.[0]\<close>: \<open>None\<close> is \<^verbatim>\<open>undefined\<close>.\<close>

definition firstExample :: "TermData \<Rightarrow> string option" where
  "firstExample t =
     (case details t of
        None \<Rightarrow> None
      | Some d \<Rightarrow>
          (case fmlookup d 0 of
             None \<Rightarrow> None
           | Some ds \<Rightarrow> (case examples ds of [] \<Rightarrow> None | e # _ \<Rightarrow> Some e)))"

text \<open>A value used as a condition: \<^verbatim>\<open>undefined\<close> and the empty string are falsy.\<close>

definition truthy :: "string option \<Rightarrow> bool" where
  "truthy v = (case v of None \<Rightarrow> False | Some s \<Rightarrow> s \<noteq> [])"

text \<open>Step 1 of \<^verbatim>\<open>generateAssessmentFromTerms\<close>: the matching question.\<close>

definition matchItemsOf :: "TermData list \<Rightarrow> MatchItem list" where
  "matchItemsOf matchTerms =
     map (\<lambda>(t, i). MatchItem (''item-'' @ decimal i) (term_text t)) (indexed matchTerms)"

definition matchTargetsOf :: "TermData list \<Rightarrow> error + MatchTarget list" where
  "matchTargetsOf matchTerms =
     mapE (\<lambda>(t, i). case firstDefinition t of
                       Inl e \<Rightarrow> Inl e
                     | Inr d \<Rightarrow> Inr (MatchTarget (''target-'' @ decimal i) d))
       (indexed matchTerms)"

definition correctPairsOf :: "MatchItem list \<Rightarrow> MatchTarget list \<Rightarrow> (string, string) fmap" where
  "correctPairsOf matchItems matchTargets =
     fold (\<lambda>(item, i) pairs. fmupd (item_id item) (target_id (matchTargets ! i)) pairs)
       (indexed matchItems) fmempty"

definition matchQuestion :: "TermData list \<Rightarrow> error + AssessmentQuestion list" where
  "matchQuestion shuffledTerms =
     (if length shuffledTerms \<ge> 4 then
        let matchTerms = take 4 shuffledTerms;
            matchItems = matchItemsOf matchTerms
        in case matchTargetsOf matchTerms of
             Inl e \<Rightarrow> Inl e
           | Inr matchTargets \<Rightarrow>
               Inr [Match ''match-q1'' ''Match each term to its correct definition.''
                      matchItems matchTargets (correctPairsOf matchItems matchTargets)]
      else Inr [])"

text \<open>Step 2, run for each term of the shuffled list: A the multiple-choice question,
  B the fill-in-the-blank question, C the written question. Each gives the questions it
  pushes.\<close>

definition mcqQuestion ::
  "TermData list \<Rightarrow> TermData \<Rightarrow> nat \<Rightarrow> rng \<Rightarrow> error + AssessmentQuestion list \<times> rng" where
  "mcqQuestion shuffledTerms t index g =
     (if length shuffledTerms \<ge> 4 then
        let correctAnswer' = term_text t
        in case shuffleArray g (filter (\<lambda>u. term_text u \<noteq> correctAnswer') shuffledTerms) of
             (shuffled, g1) \<Rightarrow>
               let distractors = map term_text (take 3 shuffled)
               in if length distractors = 3 then
                    (case firstDefinition t of
                       Inl e \<Rightarrow> Inl e
                     | Inr d \<Rightarrow>
                         (case shuffleArray g1 (correctAnswer' # distractors) of
                            (opts, g2) \<Rightarrow>
                              Inr ([MCQ (''mcq-'' @ decimal index)
                                      (''Which word best fits the definition: '' @ quote @ d @ quote)
                                      opts correctAnswer'], g2)))
                  else Inr ([], g1)
      else Inr ([], g))"

definition fillBlankQuestion ::
  "engine \<Rightarrow> TermData \<Rightarrow> nat \<Rightarrow> error + AssessmentQuestion list" where
  "fillBlankQuestion engine t index =
     (case firstExample t of
        None \<Rightarrow> Inr []
      | Some example \<Rightarrow>
          if example \<noteq> [] then
            (case replaceTerm engine (term_text t) (stripEmphasis example) of
               Inl e \<Rightarrow> Inl e
             | Inr sentence' \<Rightarrow> Inr [FillBlank (''fill-'' @ decimal index) sentence' (term_text t)])
          else Inr [])"

definition writtenQuestion :: "TermData \<Rightarrow> nat \<Rightarrow> AssessmentQuestion" where
  "writtenQuestion t index =
     Written (''written-'' @ decimal index)
       (''Write your own sentence using the word '' @ quote @ term_text t @ quote @ ''.'')
       (if truthy (firstExample t) then the (firstExample t)
        else ''e.g., A sentence demonstrating the use of '' @ term_text t @ ''.'')"

fun forEachTerm ::
  "engine \<Rightarrow> TermData list \<Rightarrow> (TermData \<times> nat) list \<Rightarrow> AssessmentQuestion list \<Rightarrow> rng
     \<Rightarrow> error + AssessmentQuestion list \<times> rng" where
  "forEachTerm engine shuffledTerms [] questions' g = Inr (questions', g)"
| "forEachTerm engine shuffledTerms ((t, index) # rest) questions' g =
     (case mcqQuestion shuffledTerms t index g of
        Inl e \<Rightarrow> Inl e
      | Inr (mcq, g1) \<Rightarrow>
          (case fillBlankQuestion engine t index of
             Inl e \<Rightarrow> Inl e
           | Inr fill \<Rightarrow>
               forEachTerm engine shuffledTerms rest
                 (questions' @ mcq @ fill @ [writtenQuestion t index]) g1))"

text \<open>The questions collected before the final shuffle (lines 19 to 79).\<close>

definition collectQuestions ::
  "engine \<Rightarrow> rng \<Rightarrow> TermData list \<Rightarrow> error + AssessmentQuestion list \<times> rng" where
  "collectQuestions engine g terms =
     (case shuffleArray g terms of
        (shuffledTerms, g1) \<Rightarrow>
          (case matchQuestion shuffledTerms of
             Inl e \<Rightarrow> Inl e
           | Inr questions' \<Rightarrow>
               forEachTerm engine shuffledTerms (indexed shuffledTerms) questions' g1))"

text \<open>
  \<^verbatim>\<open>Math.floor(numTerms * 1.2)\<close> is computed in IEEE 754 double precision. The
  literal \<^verbatim>\<open>1.2\<close> is the double \<open>5404319552844595 / 2^52\<close>; the product with the
  integer \<open>numTerms\<close> (an array length, below \<open>2^32\<close> and so a double itself) is
  rounded to 53 significant bits, ties to even, and then floored. \<open>bitLength\<close> is the
  number of bits of a natural number.
\<close>

fun bitLength :: "nat \<Rightarrow> nat" where
  "bitLength n = (if n = 0 then 0 else Suc (bitLength (n div 2)))"

declare bitLength.simps [simp del]

definition floorTimes1_2 :: "nat \<Rightarrow> nat" where
  "floorTimes1_2 n =
     (let N = n * 5404319552844595;
          s = bitLength N - 53;
          q = N div 2 ^ s;
          r = N mod 2 ^ s;
          q' = (if 2 ^ s < 2 * r \<or> (2 * r = 2 ^ s \<and> odd q) then q + 1 else q)
      in (q' * 2 ^ s) div 2 ^ 52)"

definition targetQuestionCount :: "nat \<Rightarrow> nat" where
  "targetQuestionCount numTerms = min (floorTimes1_2 numTerms + 3) 25"

definition generateAssessmentFromTerms ::
  "engine \<Rightarrow> rng \<Rightarrow> TermData list \<Rightarrow> error + AssessmentData" where
  "generateAssessmentFromTerms engine g terms =
     (case collectQuestions engine g terms of
        Inl e \<Rightarrow> Inl e
      | Inr (questions', g1) \<Rightarrow>
          let numTerms = length terms;
              finalQuestions = take (targetQuestionCount numTerms) (fst (shuffleArray g1 questions'))
          in Inr \<lparr>title = ''Vocabulary Assessment ('' @ decimal (length finalQuestions)
                            @ '' Questions)'',
                  questions = finalQuestions\<rparr>)"

section \<open>Grading an assessment\<close>

text \<open>
  The answers of \<^verbatim>\<open>AssessmentModal\<close> are kept in an object from question ids to
  values of type \<^verbatim>\<open>any\<close>. The views store a string (multiple choice, fill in the
  blank, written) or an object from item ids to target ids (match); a question without
  an entry reads as \<^verbatim>\<open>undefined\<close>, which is \<open>None\<close> (as is \<^verbatim>\<open>null\<close>, which the
  grader treats alike and no view stores).
\<close>

datatype answer = Text string | Pairs "(string, string) fmap"

type_synonym AnswerState = "(string, answer) fmap"

datatype status = Loading | Taking | Submitted

record AssessmentModalState =
  assessmentData :: "AssessmentData option"
  status :: status
  answers :: AnswerState
  score :: nat

text \<open>\<^verbatim>\<open>Object.keys(correctPairs).every(itemId => userAnswer[itemId] === correctPairs[itemId])\<close>\<close>

definition allMatched :: "(string, string) fmap \<Rightarrow> (string, string) fmap \<Rightarrow> bool" where
  "allMatched userAnswer pairs =
     fmpred (\<lambda>itemId targetId. fmlookup userAnswer itemId = Some targetId) pairs"

text \<open>
  The body of the \<^verbatim>\<open>forEach\<close> of \<^verbatim>\<open>handleSubmit\<close>: whether the question adds one
  to \<open>correctCount\<close>. A written question calls \<^verbatim>\<open>userAnswer.trim()\<close>, which throws
  a TypeError on an object.
\<close>

definition isQuestionCorrect :: "AssessmentQuestion \<Rightarrow> answer option \<Rightarrow> error + bool" where
  "isQuestionCorrect q userAnswer =
     (case userAnswer of
        None \<Rightarrow> Inr False
      | Some a \<Rightarrow>
          (case q of
             MCQ _ _ _ correct \<Rightarrow> Inr (a = Text correct)
           | FillBlank _ _ correct \<Rightarrow>
               Inr (case a of
                      Text s \<Rightarrow> toLowerCase (trim s) = toLowerCase correct
                    | Pairs _ \<Rightarrow> False)
           | Match _ _ _ _ pairs \<Rightarrow>
               Inr (case a of Pairs m \<Rightarrow> allMatched m pairs | Text _ \<Rightarrow> False)
           | Written _ _ _ \<Rightarrow>
               (case a of
                  Text s \<Rightarrow> Inr (s \<noteq> [] \<and> trim s \<noteq> [])
                | Pairs _ \<Rightarrow> Inl TypeError)))"

fun countCorrect :: "AnswerState \<Rightarrow> AssessmentQuestion list \<Rightarrow> nat \<Rightarrow> error + nat" where
  "countCorrect ans [] correctCount = Inr correctCount"
| "countCorrect ans (q # qs) correctCount =
     (case isQuestionCorrect q (fmlookup ans (qid q)) of
        Inl e \<Rightarrow> Inl e
      | Inr b \<Rightarrow> countCorrect ans qs (if b then correctCount + 1 else correctCount))"

definition handleSubmit :: "AssessmentModalState \<Rightarrow> error + AssessmentModalState" where
  "handleSubmit st =
     (case assessmentData st of
        None \<Rightarrow> Inr st
      | Some d \<Rightarrow>
          (case countCorrect (answers st) (questions d) 0 of
             Inl e \<Rightarrow> Inl e
           | Inr correctCount \<Rightarrow> Inr (st\<lparr>score := correctCount, status := Submitted\<rparr>)))"

text \<open>The verdict that \<^verbatim>\<open>MatchQuestionView\<close> shows for a match question.\<close>

definition matchViewIsCorrect ::
  "bool \<Rightarrow> (string, string) fmap option \<Rightarrow> (string, string) fmap \<Rightarrow> bool" where
  "matchViewIsCorrect isSubmitted userAnswer pairs =
     (case userAnswer of
        None \<Rightarrow> False
      | Some m \<Rightarrow>
          if \<not> isSubmitted then False
          else if fcard (fmdom m) < fcard (fmdom pairs) then False
          else allMatched m pairs)"

text \<open>
  How an answer to a match question comes about. \<^verbatim>\<open>MatchQuestionView\<close> renders one
  select box for each item of the question, offering the targets of the question; a
  choice calls \<^verbatim>\<open>handleSelectChange\<close> with the id of that item and the id of the
  chosen target, and the map it builds becomes the answer. \<open>selections\<close> holds of the
  answers the view can hold: \<^verbatim>\<open>undefined\<close> before the first choice, and then what the
  choices build.
\<close>

definition handleSelectChange ::
  "(string, string) fmap option \<Rightarrow> string \<Rightarrow> string \<Rightarrow> (string, string) fmap" where
  "handleSelectChange userAnswer itemId targetId =
     fmupd itemId targetId (case userAnswer of None \<Rightarrow> fmempty | Some m \<Rightarrow> m)"

inductive selections ::
  "MatchItem list \<Rightarrow> MatchTarget list \<Rightarrow> (string, string) fmap option \<Rightarrow> bool"
  for its tgs where
  untouched: "selections its tgs None"
| select: "selections its tgs userAnswer \<Longrightarrow> item \<in> set its \<Longrightarrow> target \<in> set tgs
           \<Longrightarrow> selections its tgs
                 (Some (handleSelectChange userAnswer (item_id item) (target_id target)))"

section \<open>The quiz session\<close>

datatype PracticeType =
    MeaningMatch | Sentence | Synonym | Collocation | Pos | SentencePractice | SpellingBee
  | SyntaxScramble | ContextCheck | ConversationChoice | CollocationMatch | ComprehensionCheck

datatype gameState = Playing | Results

record QuizState =
  gameState :: gameState
  currentIndex :: nat
  wrongAnswers :: "TermData list"
  shuffledQuestions :: "TermData list"

text \<open>A call of the \<^verbatim>\<open>onQuizComplete\<close> property with quiz type, score and total.\<close>

datatype callback = OnQuizComplete PracticeType int nat

text \<open>The effect that runs when the modal opens.\<close>

definition openQuiz :: "rng \<Rightarrow> TermData list \<Rightarrow> QuizState" where
  "openQuiz g questions' =
     \<lparr>gameState = Playing, currentIndex = 0, wrongAnswers = [],
      shuffledQuestions = fst (shuffleArray g questions')\<rparr>"

text \<open>\<^verbatim>\<open>prev.find(t => t.term === currentTerm.term)\<close> decides whether the term is
  appended.\<close>

definition recordWrong :: "TermData \<Rightarrow> TermData list \<Rightarrow> TermData list" where
  "recordWrong currentTerm prev =
     (if find (\<lambda>t. term_text t = term_text currentTerm) prev = None
      then prev @ [currentTerm] else prev)"

text \<open>
  \<^verbatim>\<open>handleNextQuestion\<close> gives the state after the batched updates and the calls
  made. Without a current question (\<^verbatim>\<open>shuffledQuestions[currentIndex]\<close> undefined) no
  view is rendered and nothing can call the handler: the model gives \<open>None\<close>.
\<close>

definition handleNextQuestion ::
  "PracticeType \<Rightarrow> bool \<Rightarrow> QuizState \<Rightarrow> (QuizState \<times> callback list) option" where
  "handleNextQuestion quizType isCorrect st =
     (if currentIndex st < length (shuffledQuestions st) then
        let currentTerm = shuffledQuestions st ! currentIndex st;
            st1 = (if \<not> isCorrect
                   then st\<lparr>wrongAnswers := recordWrong currentTerm (wrongAnswers st)\<rparr>
                   else st)
        in if currentIndex st + 1 < length (shuffledQuestions st) then
             Some (st1\<lparr>currentIndex := currentIndex st + 1\<rparr>, [])
           else
             let finalWrongAnswers =
                   (if \<not> isCorrect
                       \<and> find (\<lambda>t. term_text t = term_text currentTerm) (wrongAnswers st) = None
                    then wrongAnswers st @ [currentTerm] else wrongAnswers st);
                 score' = int (length (shuffledQuestions st)) - int (length finalWrongAnswers)
             in Some (st1\<lparr>gameState := Results\<rparr>,
                      [OnQuizComplete quizType score' (length (shuffledQuestions st))])
      else None)"

definition handleRedeem :: "rng \<Rightarrow> QuizState \<Rightarrow> QuizState" where
  "handleRedeem g st =
     st\<lparr>shuffledQuestions := fst (shuffleArray g (wrongAnswers st)),
        wrongAnswers := [], currentIndex := 0, gameState := Playing\<rparr>"

text \<open>
  What the user can do. A question view, and with it the answer event, is rendered
  while playing; the redeem button is rendered on the results screen when
  \<^verbatim>\<open>wrongAnswers.length > 0\<close>. An event whose control is not rendered leaves the state
  as it is and calls nothing.
\<close>

datatype event = Answer bool | Redeem

definition quizStep ::
  "PracticeType \<Rightarrow> rng \<Rightarrow> event \<Rightarrow> QuizState \<Rightarrow> QuizState \<times> callback list" where
  "quizStep quizType g ev st =
     (case ev of
        Answer isCorrect \<Rightarrow>
          (if gameState st = Playing then
             (case handleNextQuestion quizType isCorrect st of
                Some r \<Rightarrow> r
              | None \<Rightarrow> (st, []))
           else (st, []))
      | Redeem \<Rightarrow>
          (if gameState st = Results \<and> wrongAnswers st \<noteq> [] then (handleRedeem g st, [])
           else (st, [])))"

text \<open>A run of answers, with the calls made along the way.\<close>

fun answerAll ::
  "PracticeType \<Rightarrow> rng \<Rightarrow> bool list \<Rightarrow> QuizState \<Rightarrow> QuizState \<times> callback list" where
  "answerAll quizType g [] st = (st, [])"
| "answerAll quizType g (b # bs) st =
     (case quizStep quizType g (Answer b) st of
        (st1, calls1) \<Rightarrow>
          (case answerAll quizType g bs st1 of
             (st2, calls2) \<Rightarrow> (st2, calls1 @ calls2)))"

text \<open>The states of a session: the state after opening, and every state an event leads to.\<close>

inductive reachable :: "PracticeType \<Rightarrow> QuizState \<Rightarrow> bool" for quizType where
  opened: "reachable quizType (openQuiz g questions')"
| stepped: "reachable quizType st \<Longrightarrow> quizStep quizType g ev st = (st', calls)
            \<Longrightarrow> reachable quizType st'"

section \<open>Example inputs\<close>

text \<open>The draws that always give index 0, an engine that rejects every source left to
  it, and a term with one meaning and one example.\<close>

definition firstIndex :: rng where
  "firstIndex = (\<lambda>i. 0)"

definition noEngine :: engine where
  "noEngine = (\<lambda>source s. Inl SyntaxError)"

definition ambiguousTerm :: TermData where
  "ambiguousTerm =
     \<lparr>term_text = ''ambiguous'', phonetic = [], syllables = [],
      meanings = [\<lparr>partOfSpeech = ''adjective'',
                   meaning_definition = ''open to more than one interpretation''\<rparr>],
      details = Some (fmupd 0 \<lparr>examples = [''The contract was **ambiguous** in places.'']\<rparr>
                        fmempty)\<rparr>"

definition lucidTerm :: TermData where
  "lucidTerm =
     \<lparr>term_text = ''lucid'', phonetic = [], syllables = [],
      meanings = [\<lparr>partOfSpeech = ''adjective'', meaning_definition = ''easy to understand''\<rparr>],
      details = None\<rparr>"

text \<open>The match question the composer builds from four terms, and an assessment in
  progress over the questions of one term.\<close>

definition fourItems :: "MatchItem list" where
  "fourItems = [MatchItem ''item-0'' ''lucid'', MatchItem ''item-1'' ''terse'',
                MatchItem ''item-2'' ''candid'', MatchItem ''item-3'' ''ambiguous'']"

definition fourTargets :: "MatchTarget list" where
  "fourTargets = [MatchTarget ''target-0'' ''easy to understand'',
                  MatchTarget ''target-1'' ''using few words'',
                  MatchTarget ''target-2'' ''truthful and direct'',
                  MatchTarget ''target-3'' ''open to more than one interpretation'']"

definition fourPairs :: "(string, string) fmap" where
  "fourPairs = fmupd ''item-3'' ''target-3'' (fmupd ''item-2'' ''target-2''
                 (fmupd ''item-1'' ''target-1'' (fmupd ''item-0'' ''target-0'' fmempty)))"

definition fourMatch :: AssessmentQuestion where
  "fourMatch = Match ''match-q1'' ''Match each term to its correct definition.''
                 fourItems fourTargets fourPairs"

definition ambiguousQuestions :: "AssessmentQuestion list" where
  "ambiguousQuestions =
     [Written ''written-0''
        (''Write your own sentence using the word '' @ quote @ ''ambiguous'' @ quote @ ''.'')
        ''The contract was **ambiguous** in places.'',
      FillBlank ''fill-0'' ''The contract was _____ in places.'' ''ambiguous'']"

definition takingState :: "AnswerState \<Rightarrow> AssessmentModalState" where
  "takingState ans =
     \<lparr>assessmentData = Some \<lparr>title = ''Vocabulary Assessment (2 Questions)'',
                               questions = ambiguousQuestions\<rparr>,
      status = Taking, answers = ans, score = 0\<rparr>"

text \<open>Two more terms, a pool of four terms with four texts, a pool in which three
  entries have the same text, and a pool in which the text of the first term is
  repeated.\<close>

definition terseTerm :: TermData where
  "terseTerm =
     \<lparr>term_text = ''terse'', phonetic = [], syllables = [],
      meanings = [\<lparr>partOfSpeech = ''adjective'', meaning_definition = ''using few words''\<rparr>],
      details = None\<rparr>"

definition candidTerm :: TermData where
  "candidTerm =
     \<lparr>term_text = ''candid'', phonetic = [], syllables = [],
      meanings = [\<lparr>partOfSpeech = ''adjective'', meaning_definition = ''truthful and direct''\<rparr>],
      details = None\<rparr>"

definition fourTerms :: "TermData list" where
  "fourTerms = [ambiguousTerm, lucidTerm, terseTerm, candidTerm]"

definition duplicatePool :: "TermData list" where
  "duplicatePool = [ambiguousTerm, lucidTerm, lucidTerm, lucidTerm]"

definition repeatedPool :: "TermData list" where
  "repeatedPool = [ambiguousTerm, ambiguousTerm, lucidTerm, terseTerm]"

text \<open>A term whose only example belongs to its second meaning, and a term whose text
  is no well-formed pattern.\<close>

definition bankTerm :: TermData where
  "bankTerm =
     \<lparr>term_text = ''bank'', phonetic = [], syllables = [],
      meanings = [\<lparr>partOfSpeech = ''noun'', meaning_definition = ''an institution that keeps money''\<rparr>,
                  \<lparr>partOfSpeech = ''noun'', meaning_definition = ''the land along a river''\<rparr>],
      details = Some (fmupd 1 \<lparr>examples = [''We sat on the bank of the river.'']\<rparr> fmempty)\<rparr>"

definition cppTerm :: TermData where
  "cppTerm =
     \<lparr>term_text = ''C++'', phonetic = [], syllables = [],
      meanings = [\<lparr>partOfSpeech = ''noun'', meaning_definition = ''a programming language''\<rparr>],
      details = Some (fmupd 0 \<lparr>examples = [''She writes C++ at work.'']\<rparr> fmempty)\<rparr>"

text \<open>A pool of four entries with one text, and a term without a meaning.\<close>

definition samePool :: "TermData list" where
  "samePool = [lucidTerm, lucidTerm, lucidTerm, lucidTerm]"

definition noMeaningTerm :: TermData where
  "noMeaningTerm =
     \<lparr>term_text = ''vague'', phonetic = [], syllables = [], meanings = [], details = None\<rparr>"

section \<open>Properties of the shuffler\<close>

lemma randomBelow_less: "0 < n \<Longrightarrow> fst (randomBelow g n) < n"
  by (simp add: randomBelow_def)

lemma mset_swap_cells:
  assumes "i < length xs" "j < length xs"
  shows "mset (xs[i := xs ! j, j := xs ! i]) = mset xs"
  using assms by (simp add: mset_swap)

lemma shuffleLoop_mset:
  "n \<le> length xs \<Longrightarrow> mset (fst (shuffleLoop g n xs)) = mset xs"
proof (induction n arbitrary: g xs)
  case 0
  then show ?case by simp
next
  case (Suc n)
  obtain r g' where r: "randomBelow g (Suc n) = (r, g')"
    by (cases "randomBelow g (Suc n)")
  have "r < Suc n"
    using randomBelow_less [of "Suc n" g] r by simp
  with Suc.prems have rl: "r < length xs" and nl: "n < length xs"
    by simp_all
  let ?ys = "xs[n := xs ! r, r := xs ! n]"
  have "mset (fst (shuffleLoop g' n ?ys)) = mset ?ys"
    using Suc.prems by (intro Suc.IH) simp
  also have "\<dots> = mset xs"
    using nl rl by (rule mset_swap_cells)
  finally show ?case
    by (simp add: r)
qed

lemma shuffleArray_mset: "mset (fst (shuffleArray g xs)) = mset xs"
  by (simp add: shuffleArray_def shuffleLoop_mset)

lemma shuffleArray_length: "length (fst (shuffleArray g xs)) = length xs"
  using shuffleArray_mset [of g xs] by (metis size_mset)

lemma shuffleArray_set: "set (fst (shuffleArray g xs)) = set xs"
  using shuffleArray_mset [of g xs] by (metis set_mset_mset)

lemma shuffleLoopRef_pure:
  "newArray < length s \<Longrightarrow>
   shuffleLoopRef g n s newArray =
     (s[newArray := fst (shuffleLoop g n (s ! newArray))], snd (shuffleLoop g n (s ! newArray)))"
proof (induction n arbitrary: g s)
  case 0
  then show ?case by simp
next
  case (Suc n)
  obtain r g' where r: "randomBelow g (Suc n) = (r, g')"
    by (cases "randomBelow g (Suc n)")
  let ?a = "(s ! newArray)[n := s ! newArray ! r, r := s ! newArray ! n]"
  have "shuffleLoopRef g' n (s[newArray := ?a]) newArray =
        ((s[newArray := ?a])[newArray := fst (shuffleLoop g' n ((s[newArray := ?a]) ! newArray))],
         snd (shuffleLoop g' n ((s[newArray := ?a]) ! newArray)))"
    using Suc.prems by (intro Suc.IH) simp
  then show ?case
    using Suc.prems by (simp add: r)
qed

text \<open>
  C8. For every input sequence \<open>S\<close> and every outcome of the random draws,
  \<open>shuffleArray S\<close> is a permutation of \<open>S\<close> (the same multiset, hence the same length),
  and the shuffle of the empty sequence is empty. Over the store, the result is a
  reference that did not exist before, every array that existed before (the argument
  among them) holds the same elements afterwards, and the new array holds what the
  function over values returns.
\<close>

theorem shuffleArray_permutation:
  "mset (fst (shuffleArray g S)) = mset S
   \<and> length (fst (shuffleArray g S)) = length S
   \<and> fst (shuffleArray g ([] :: 'a list)) = []
   \<and> (array < length s \<longrightarrow>
        (case shuffleArrayRef g s array of (newArray, s', g') \<Rightarrow>
           newArray \<noteq> array \<and> newArray = length s \<and> length s' = Suc (length s)
           \<and> take (length s) s' = s \<and> s' ! array = s ! array
           \<and> s' ! newArray = fst (shuffleArray g (s ! array))
           \<and> mset (s' ! newArray) = mset (s ! array)))"
proof -
  have ref: "array < length s \<Longrightarrow>
        (case shuffleArrayRef g s array of (newArray, s', g') \<Rightarrow>
           newArray \<noteq> array \<and> newArray = length s \<and> length s' = Suc (length s)
           \<and> take (length s) s' = s \<and> s' ! array = s ! array
           \<and> s' ! newArray = fst (shuffleArray g (s ! array))
           \<and> mset (s' ! newArray) = mset (s ! array))"
    by (simp add: shuffleArrayRef_def Let_def shuffleLoopRef_pure shuffleArray_mset
        shuffleArray_def [symmetric] nth_append)
  show ?thesis
    using ref by (simp add: shuffleArray_mset shuffleArray_length) (simp add: shuffleArray_def)
qed

theorem shuffleArray_permutation_witness:
  "(0::nat) < length [[1, 2, 3 :: nat]]
   \<and> (case shuffleArrayRef (\<lambda>i. i) [[1, 2, 3 :: nat]] 0 of (newArray, s', g') \<Rightarrow>
        newArray = 1 \<and> s' ! 0 = [1, 2, 3] \<and> mset (s' ! newArray) = mset [1, 2, 3 :: nat])"
  using shuffleArray_permutation [of "\<lambda>i. i" "[1, 2, 3 :: nat]" 0 "[[1, 2, 3 :: nat]]"]
  by (auto split: prod.splits)

section \<open>Evaluation on small inputs\<close>

lemma decimal_digit: "n < 10 \<Longrightarrow> decimal n = [digitChar n]"
  by (simp add: decimal.simps)

lemma shuffleArray_single: "shuffleArray g [x] = ([x], \<lambda>i. g (Suc i))"
  by (simp add: shuffleArray_def randomBelow_def)

section \<open>The number of questions\<close>

text \<open>
  The double-precision product is the exact one wherever it matters: below 19 terms
  \<open>floorTimes1_2 n\<close> is \<open>\<lfloor>6n/5\<rfloor>\<close> (the product of a multiple of 5 is rounded up to the
  integer it falls just short of), and from 19 terms on both are at least 22, so that
  the cap of 25 applies.
\<close>

lemma bitLength_upper: "n < 2 ^ bitLength n"
proof (induction n rule: bitLength.induct)
  case (1 n)
  show ?case
  proof (cases "n = 0")
    case True
    then show ?thesis by (simp add: bitLength.simps)
  next
    case False
    with 1 have "n div 2 < 2 ^ bitLength (n div 2)" by simp
    then have "n < 2 * 2 ^ bitLength (n div 2)" by linarith
    with False show ?thesis by (simp add: bitLength.simps [of n])
  qed
qed

lemma bitLength_lower: "0 < n \<Longrightarrow> 2 ^ (bitLength n - 1) \<le> n"
proof (induction n rule: bitLength.induct)
  case (1 n)
  show ?case
  proof (cases "n div 2 = 0")
    case True
    with 1 show ?thesis by (simp add: bitLength.simps [of n] bitLength.simps [of 0])
  next
    case False
    with 1 have ih: "2 ^ (bitLength (n div 2) - 1) \<le> n div 2" by simp
    from False have "bitLength (n div 2) \<noteq> 0" by (simp add: bitLength.simps [of "n div 2"])
    then obtain k where k: "bitLength (n div 2) = Suc k" by (cases "bitLength (n div 2)") auto
    from ih k have "2 * 2 ^ k \<le> n" by simp
    with 1 k show ?thesis by (simp add: bitLength.simps [of n])
  qed
qed

lemma bitLength_0: "bitLength 0 = 0"
  by (simp add: bitLength.simps)
lemma bitLength_1: "bitLength (Suc 0) = 1"
  by (simp add: bitLength.simps)
lemma bitLength_1': "bitLength 1 = 1"
  by (simp add: bitLength.simps)
lemma bitLength_Bit0: "bitLength (numeral (Num.Bit0 k)) = Suc (bitLength (numeral k))"
  by (subst bitLength.simps) simp
lemma bitLength_Bit1: "bitLength (numeral (Num.Bit1 k)) = Suc (bitLength (numeral k))"
proof -
  have "numeral (Num.Bit1 k) div (2::nat) = numeral k"
    by simp
  then show ?thesis
    by (subst bitLength.simps) simp
qed
lemmas bitLength_numeral = bitLength_0 bitLength_1 bitLength_1' bitLength_Bit0 bitLength_Bit1

lemma floorTimes1_2_small_all:
  "list_all (\<lambda>n. floorTimes1_2 n = n * 6 div 5) [0..<19]"
  by (simp add: upt_rec floorTimes1_2_def Let_def bitLength_numeral)

lemma floorTimes1_2_small: "n < 19 \<Longrightarrow> floorTimes1_2 n = n * 6 div 5"
  using floorTimes1_2_small_all by (simp add: list_all_iff)

lemma floorTimes1_2_large:
  assumes "19 \<le> n"
  shows "22 \<le> floorTimes1_2 n"
proof -
  define N where "N = n * 5404319552844595"
  define s where "s = bitLength N - 53"
  define q where "q = N div 2 ^ s"
  define r where "r = N mod 2 ^ s"
  define q' where "q' = (if 2 ^ s < 2 * r \<or> (2 * r = 2 ^ s \<and> odd q) then q + 1 else q)"
  have f: "floorTimes1_2 n = (q' * 2 ^ s) div 2 ^ 52"
    by (simp add: floorTimes1_2_def Let_def N_def s_def q_def r_def q'_def)
  have Nbig: "19 * 5404319552844595 \<le> N"
    using assms by (simp add: N_def)
  then have Npos: "0 < N" by simp
  have "2 ^ (bitLength N - 1) \<le> N"
    using Npos by (rule bitLength_lower)
  moreover have "(2::nat) ^ 56 < 2 ^ bitLength N"
    using Nbig bitLength_upper [of N] by simp
  then have "56 < bitLength N"
    by (simp only: power_strict_increasing_iff one_less_numeral_iff semiring_norm)
  then have "(2::nat) ^ (s + 52) \<le> 2 ^ (bitLength N - 1)"
    by (intro power_increasing) (simp_all add: s_def)
  ultimately have "(2::nat) ^ s * 2 ^ 52 \<le> N"
    by (simp add: power_add)
  then have s64: "(2::nat) ^ s * 64 \<le> N"
    by simp
  have "r < 2 ^ s" by (simp add: r_def)
  with s64 have r64: "r * 64 \<le> N" by simp
  have "q * 2 ^ s + r = N" unfolding q_def r_def by (rule div_mult_mod_eq)
  moreover have "q * 2 ^ s \<le> q' * 2 ^ s" by (simp add: q'_def)
  ultimately have "N \<le> q' * 2 ^ s + r" by linarith
  with r64 Nbig have "22 * 2 ^ 52 \<le> q' * 2 ^ s" by simp
  then have "22 \<le> (q' * 2 ^ s) div 2 ^ 52"
    by (simp add: less_eq_div_iff_mult_less_eq)
  with f show ?thesis by simp
qed

lemma targetQuestionCount_eq: "targetQuestionCount n = min (n * 6 div 5 + 3) 25"
proof (cases "n < 19")
  case True
  then show ?thesis by (simp add: targetQuestionCount_def floorTimes1_2_small)
next
  case False
  then have "22 \<le> floorTimes1_2 n" by (simp add: floorTimes1_2_large)
  moreover from False have "22 \<le> n * 6 div 5" by simp
  ultimately show ?thesis by (simp add: targetQuestionCount_def)
qed

lemma ambiguous_collect:
  "collectQuestions noEngine firstIndex [ambiguousTerm] =
     Inr ([FillBlank ''fill-0'' ''The contract was _____ in places.'' ''ambiguous'',
           Written ''written-0''
             (''Write your own sentence using the word '' @ quote @ ''ambiguous'' @ quote @ ''.'')
             ''The contract was **ambiguous** in places.''],
          \<lambda>i. firstIndex (Suc i))"
  by (simp add: collectQuestions_def shuffleArray_single matchQuestion_def indexed_def
      mcqQuestion_def fillBlankQuestion_def firstExample_def ambiguousTerm_def replaceTerm_def
      literalPattern_def syntaxCharacter_def canonicalize_def blankMarker_def
      writtenQuestion_def truthy_def quote_def decimal_digit digitChar_def)

lemma ambiguous_assessment:
  "generateAssessmentFromTerms noEngine firstIndex [ambiguousTerm] =
     Inr \<lparr>title = ''Vocabulary Assessment (2 Questions)'',
          questions =
            [Written ''written-0''
               (''Write your own sentence using the word '' @ quote @ ''ambiguous'' @ quote @ ''.'')
               ''The contract was **ambiguous** in places.'',
             FillBlank ''fill-0'' ''The contract was _____ in places.'' ''ambiguous'']\<rparr>"
  unfolding generateAssessmentFromTerms_def ambiguous_collect
  by (simp add: targetQuestionCount_eq shuffleArray_def randomBelow_def firstIndex_def
      decimal_digit digitChar_def)

text \<open>
  C1. Whenever the composer returns an assessment for \<open>n\<close> terms, its questions are the
  first \<open>min(\<lfloor>6n/5\<rfloor> + 3, 25)\<close> entries of a permutation of the questions collected: at
  most that many, and exactly that many when at least that many were collected. The
  target as the source computes it, in floating point, is that number, and for 10
  terms it is 15.
\<close>

theorem generateAssessment_size:
  assumes "generateAssessmentFromTerms engine g terms = Inr a"
  shows "(\<exists>collected g1 shuffled.
            collectQuestions engine g terms = Inr (collected, g1)
            \<and> mset shuffled = mset collected
            \<and> questions a = take (min (length terms * 6 div 5 + 3) 25) shuffled
            \<and> length (questions a) = min (length collected) (min (length terms * 6 div 5 + 3) 25))
         \<and> length (questions a) \<le> min (length terms * 6 div 5 + 3) 25
         \<and> targetQuestionCount (length terms) = min (length terms * 6 div 5 + 3) 25
         \<and> targetQuestionCount 10 = 15"
proof -
  from assms obtain collected g1 where
    c: "collectQuestions engine g terms = Inr (collected, g1)"
    by (auto simp: generateAssessmentFromTerms_def split: sum.splits)
  let ?shuffled = "fst (shuffleArray g1 collected)"
  let ?target = "min (length terms * 6 div 5 + 3) 25"
  from assms c have q: "questions a = take ?target ?shuffled"
    by (auto simp: generateAssessmentFromTerms_def Let_def targetQuestionCount_eq)
  have m: "mset ?shuffled = mset collected"
    by (rule shuffleArray_mset)
  have l: "length (questions a) = min (length collected) ?target"
    by (simp add: q shuffleArray_length)
  have "\<exists>collected g1 shuffled.
            collectQuestions engine g terms = Inr (collected, g1)
            \<and> mset shuffled = mset collected
            \<and> questions a = take ?target shuffled
            \<and> length (questions a) = min (length collected) ?target"
    using c m q l by blast
  moreover have "length (questions a) \<le> ?target"
    unfolding l by (rule min.cobounded2)
  moreover have "targetQuestionCount 10 = 15"
    by (simp add: targetQuestionCount_eq)
  ultimately show ?thesis
    by (simp add: targetQuestionCount_eq)
qed

theorem generateAssessment_size_witness:
  "generateAssessmentFromTerms noEngine firstIndex [ambiguousTerm] =
     Inr \<lparr>title = ''Vocabulary Assessment (2 Questions)'',
          questions =
            [Written ''written-0''
               (''Write your own sentence using the word '' @ quote @ ''ambiguous'' @ quote @ ''.'')
               ''The contract was **ambiguous** in places.'',
             FillBlank ''fill-0'' ''The contract was _____ in places.'' ''ambiguous'']\<rparr>
   \<and> length [Written ''written-0''
               (''Write your own sentence using the word '' @ quote @ ''ambiguous'' @ quote @ ''.'')
               ''The contract was **ambiguous** in places.'',
             FillBlank ''fill-0'' ''The contract was _____ in places.'' ''ambiguous'']
       \<le> min (length [ambiguousTerm] * 6 div 5 + 3) 25"
  using generateAssessment_size [OF ambiguous_assessment] ambiguous_assessment
  by simp

section \<open>Properties of the quiz session\<close>

text \<open>The wrong answers hold each term text once, in every state of a session.\<close>

lemma recordWrong_texts:
  "term_text ` set (recordWrong t W) = insert (term_text t) (term_text ` set W)"
  by (auto simp: recordWrong_def find_None_iff intro: rev_image_eqI)

lemma recordWrong_distinct:
  "distinct (map term_text W) \<Longrightarrow> distinct (map term_text (recordWrong t W))"
  by (auto simp: recordWrong_def find_None_iff)

lemma quizStep_wrongAnswers_distinct:
  assumes "distinct (map term_text (wrongAnswers st))"
    and "quizStep quizType g ev st = (st', calls)"
  shows "distinct (map term_text (wrongAnswers st'))"
  using assms
  by (cases ev)
    (auto simp: quizStep_def handleNextQuestion_def handleRedeem_def Let_def recordWrong_distinct
      split: if_splits)

lemma reachable_wrongAnswers_distinct:
  "reachable quizType st \<Longrightarrow> distinct (map term_text (wrongAnswers st))"
proof (induction rule: reachable.induct)
  case (opened g questions')
  then show ?case by (simp add: openQuiz_def)
next
  case (stepped st g ev st' calls)
  then show ?case by (blast intro: quizStep_wrongAnswers_distinct)
qed

lemma quizStep_Answer_next:
  assumes "gameState st = Playing" "Suc (currentIndex st) < length (shuffledQuestions st)"
  shows "quizStep quizType g (Answer b) st =
           (st\<lparr>wrongAnswers := (if b then wrongAnswers st
                                  else recordWrong (shuffledQuestions st ! currentIndex st)
                                         (wrongAnswers st)),
               currentIndex := Suc (currentIndex st)\<rparr>, [])"
  using assms by (simp add: quizStep_def handleNextQuestion_def Let_def)

lemma quizStep_Answer_last:
  assumes "gameState st = Playing" "Suc (currentIndex st) = length (shuffledQuestions st)"
  shows "quizStep quizType g (Answer b) st =
           (st\<lparr>wrongAnswers := (if b then wrongAnswers st
                                  else recordWrong (shuffledQuestions st ! currentIndex st)
                                         (wrongAnswers st)),
               gameState := Results\<rparr>,
            [OnQuizComplete quizType
               (int (length (shuffledQuestions st))
                - int (length (if b then wrongAnswers st
                               else recordWrong (shuffledQuestions st ! currentIndex st)
                                      (wrongAnswers st))))
               (length (shuffledQuestions st))])"
proof -
  from assms(2) have "currentIndex st < length (shuffledQuestions st)"
    and "\<not> currentIndex st + 1 < length (shuffledQuestions st)"
    by simp_all
  then show ?thesis
    using assms(1) by (simp add: quizStep_def handleNextQuestion_def Let_def recordWrong_def)
qed

text \<open>
  C6. From a state of a session in which a question is shown, answering the remaining
  questions ends on the results screen with exactly one call of the completion callback,
  on the answer to the last question. The call carries the quiz type, the score and the
  total; the total is the number of questions, and the score is the total minus the number
  of distinct term texts among the wrong answers. The wrong answers hold each term text
  once; their texts are those recorded before together with those of the questions
  answered incorrectly.
\<close>

theorem quiz_final_score:
  assumes "reachable quizType st"
    and "gameState st = Playing"
    and "currentIndex st < length (shuffledQuestions st)"
    and "currentIndex st + length bs = length (shuffledQuestions st)"
  shows "case answerAll quizType g bs st of
           (st', calls) \<Rightarrow>
             gameState st' = Results
             \<and> calls =
                 [OnQuizComplete quizType
                    (int (length (shuffledQuestions st))
                     - int (card (term_text ` set (wrongAnswers st'))))
                    (length (shuffledQuestions st))]
             \<and> distinct (map term_text (wrongAnswers st'))
             \<and> term_text ` set (wrongAnswers st') =
                 term_text ` (set (wrongAnswers st)
                   \<union> set (map fst (filter (\<lambda>(q, b). \<not> b)
                             (zip (drop (currentIndex st) (shuffledQuestions st)) bs))))"
  using assms
proof (induction bs arbitrary: st)
  case Nil
  then show ?case by simp
next
  case (Cons b bs)
  let ?qs = "shuffledQuestions st"
  let ?k = "currentIndex st"
  let ?W = "if b then wrongAnswers st else recordWrong (?qs ! ?k) (wrongAnswers st)"
  have d: "distinct (map term_text (wrongAnswers st))"
    using Cons.prems(1) by (rule reachable_wrongAnswers_distinct)
  then have dW: "distinct (map term_text ?W)"
    by (simp add: recordWrong_distinct)
  have dr: "drop ?k ?qs = ?qs ! ?k # drop (Suc ?k) ?qs"
    using Cons.prems(3) by (simp add: Cons_nth_drop_Suc)
  have tW: "term_text ` set ?W =
              term_text ` (set (wrongAnswers st) \<union> (if b then {} else {?qs ! ?k}))"
    by (simp add: recordWrong_texts)
  show ?case
  proof (cases bs)
    case Nil
    with Cons.prems have last: "Suc ?k = length ?qs" by simp
    have "card (term_text ` set ?W) = length ?W"
      using dW by (metis distinct_card length_map set_map)
    then show ?thesis
      using Nil dW tW dr
      by (simp add: quizStep_Answer_last [OF Cons.prems(2) last] del: if_split)
  next
    case (Cons b' bs')
    with Cons.prems have nxt: "Suc ?k < length ?qs" by simp
    let ?st1 = "st\<lparr>wrongAnswers := ?W, currentIndex := Suc ?k\<rparr>"
    have step: "quizStep quizType g (Answer b) st = (?st1, [])"
      using Cons.prems(2) nxt by (rule quizStep_Answer_next)
    have r1: "reachable quizType ?st1"
      using Cons.prems(1) step by (rule reachable.stepped)
    have ih: "case answerAll quizType g bs ?st1 of
           (st', calls) \<Rightarrow>
             gameState st' = Results
             \<and> calls =
                 [OnQuizComplete quizType
                    (int (length (shuffledQuestions ?st1))
                     - int (card (term_text ` set (wrongAnswers st'))))
                    (length (shuffledQuestions ?st1))]
             \<and> distinct (map term_text (wrongAnswers st'))
             \<and> term_text ` set (wrongAnswers st') =
                 term_text ` (set (wrongAnswers ?st1)
                   \<union> set (map fst (filter (\<lambda>(q, b). \<not> b)
                             (zip (drop (currentIndex ?st1) (shuffledQuestions ?st1)) bs))))"
      using r1 Cons.prems(2) nxt Cons.prems(4) by (intro Cons.IH) simp_all
    obtain st' calls where a: "answerAll quizType g bs ?st1 = (st', calls)"
      by (cases "answerAll quizType g bs ?st1")
    from ih a tW dr show ?thesis
      by (simp add: step del: if_split) (auto simp: image_Un recordWrong_texts)
  qed
qed

lemma shuffleArray_pair_firstIndex:
  "fst (shuffleArray firstIndex [x, y]) = [y, x]"
  by (simp add: shuffleArray_def randomBelow_def firstIndex_def)

theorem quiz_final_score_witness:
  "reachable SpellingBee (openQuiz firstIndex [ambiguousTerm, lucidTerm])
   \<and> answerAll SpellingBee firstIndex [True, False] (openQuiz firstIndex [ambiguousTerm, lucidTerm])
       = (\<lparr>gameState = Results, currentIndex = 1, wrongAnswers = [ambiguousTerm],
           shuffledQuestions = [lucidTerm, ambiguousTerm]\<rparr>,
          [OnQuizComplete SpellingBee 1 2])"
proof -
  let ?st = "openQuiz firstIndex [ambiguousTerm, lucidTerm]"
  have r: "reachable SpellingBee ?st"
    by (rule reachable.opened)
  have e: "answerAll SpellingBee firstIndex [True, False] ?st
       = (\<lparr>gameState = Results, currentIndex = 1, wrongAnswers = [ambiguousTerm],
           shuffledQuestions = [lucidTerm, ambiguousTerm]\<rparr>,
          [OnQuizComplete SpellingBee 1 2])"
    by (simp add: openQuiz_def shuffleArray_pair_firstIndex quizStep_def handleNextQuestion_def
        Let_def recordWrong_def)
  have "gameState ?st = Playing" "currentIndex ?st < length (shuffledQuestions ?st)"
    "currentIndex ?st + length [True, False] = length (shuffledQuestions ?st)"
    by (simp_all add: openQuiz_def shuffleArray_pair_firstIndex)
  from quiz_final_score [OF r this, of firstIndex] r e show ?thesis
    by simp
qed

text \<open>
  C7. On the results screen with at least one wrong answer, redeem starts a new run: the
  state is playing, the questions are a permutation of the wrong answers, the wrong
  answers are empty and the index is 0. With no wrong answer, and while playing, the
  button is not rendered: the state stays as it is and nothing is called.
\<close>

theorem redeem_restarts:
  "(gameState st = Results \<and> wrongAnswers st \<noteq> [] \<longrightarrow>
      (case quizStep quizType g Redeem st of
         (st', calls) \<Rightarrow>
           gameState st' = Playing
           \<and> mset (shuffledQuestions st') = mset (wrongAnswers st)
           \<and> wrongAnswers st' = [] \<and> currentIndex st' = 0 \<and> calls = []))
   \<and> (wrongAnswers st = [] \<longrightarrow> quizStep quizType g Redeem st = (st, []))
   \<and> (gameState st = Playing \<longrightarrow> quizStep quizType g Redeem st = (st, []))"
proof (intro conjI impI)
  assume "gameState st = Results \<and> wrongAnswers st \<noteq> []"
  then have "quizStep quizType g Redeem st = (handleRedeem g st, [])"
    by (simp add: quizStep_def)
  moreover have "mset (shuffledQuestions (handleRedeem g st)) = mset (wrongAnswers st)"
    by (simp add: handleRedeem_def shuffleArray_mset)
  ultimately show "case quizStep quizType g Redeem st of
         (st', calls) \<Rightarrow>
           gameState st' = Playing
           \<and> mset (shuffledQuestions st') = mset (wrongAnswers st)
           \<and> wrongAnswers st' = [] \<and> currentIndex st' = 0 \<and> calls = []"
    by (simp add: handleRedeem_def)
next
  assume "wrongAnswers st = []"
  then show "quizStep quizType g Redeem st = (st, [])"
    by (simp add: quizStep_def)
next
  assume "gameState st = Playing"
  then show "quizStep quizType g Redeem st = (st, [])"
    by (simp add: quizStep_def)
qed

theorem redeem_restarts_witness:
  "quizStep SpellingBee firstIndex Redeem
     \<lparr>gameState = Results, currentIndex = 1, wrongAnswers = [ambiguousTerm, lucidTerm],
      shuffledQuestions = [lucidTerm, ambiguousTerm]\<rparr>
   = (\<lparr>gameState = Playing, currentIndex = 0, wrongAnswers = [],
       shuffledQuestions = [lucidTerm, ambiguousTerm]\<rparr>, [])
   \<and> mset [lucidTerm, ambiguousTerm] = mset [ambiguousTerm, lucidTerm]
   \<and> quizStep SpellingBee firstIndex Redeem
     \<lparr>gameState = Results, currentIndex = 1, wrongAnswers = [],
      shuffledQuestions = [lucidTerm, ambiguousTerm]\<rparr>
   = (\<lparr>gameState = Results, currentIndex = 1, wrongAnswers = [],
      shuffledQuestions = [lucidTerm, ambiguousTerm]\<rparr>, [])"
  using redeem_restarts [of "\<lparr>gameState = Results, currentIndex = 1,
      wrongAnswers = [ambiguousTerm, lucidTerm],
      shuffledQuestions = [lucidTerm, ambiguousTerm]\<rparr>" SpellingBee firstIndex]
    redeem_restarts [of "\<lparr>gameState = Results, currentIndex = 1, wrongAnswers = [],
      shuffledQuestions = [lucidTerm, ambiguousTerm]\<rparr>" SpellingBee firstIndex]
  by (simp add: quizStep_def handleRedeem_def shuffleArray_pair_firstIndex)

section \<open>Properties of the grading\<close>

lemma allMatched_iff:
  "allMatched m pairs \<longleftrightarrow> (\<forall>itemId. itemId |\<in>| fmdom pairs \<longrightarrow> fmlookup m itemId = fmlookup pairs itemId)"
  by (auto simp: allMatched_def fmpred_iff fmlookup_dom_iff)

lemma allMatched_dom: "allMatched m pairs \<Longrightarrow> fmdom pairs |\<subseteq>| fmdom m"
  by (auto simp: allMatched_def fmpred_iff fmlookup_dom_iff)

lemma allMatched_same_size:
  assumes "fmdom m |\<subseteq>| fmdom pairs"
  shows "allMatched m pairs \<longleftrightarrow>
           fcard (fmdom m) = fcard (fmdom pairs)
           \<and> (\<forall>itemId. itemId |\<in>| fmdom pairs \<longrightarrow> fmlookup m itemId = fmlookup pairs itemId)"
proof
  assume a: "allMatched m pairs"
  with assms have "fmdom m = fmdom pairs"
    by (auto dest: allMatched_dom)
  with a show "fcard (fmdom m) = fcard (fmdom pairs)
           \<and> (\<forall>itemId. itemId |\<in>| fmdom pairs \<longrightarrow> fmlookup m itemId = fmlookup pairs itemId)"
    by (simp add: allMatched_iff)
next
  assume "fcard (fmdom m) = fcard (fmdom pairs)
           \<and> (\<forall>itemId. itemId |\<in>| fmdom pairs \<longrightarrow> fmlookup m itemId = fmlookup pairs itemId)"
  then show "allMatched m pairs"
    by (simp add: allMatched_iff)
qed

lemma selections_key_set:
  "selections its tgs userAnswer \<Longrightarrow> userAnswer = Some m \<Longrightarrow>
   fset (fmdom m) \<subseteq> item_id ` set its"
proof (induction arbitrary: m rule: selections.induct)
  case untouched
  then show ?case by simp
next
  case (select userAnswer item target)
  have "fset (fmdom (case userAnswer of None \<Rightarrow> fmempty | Some m' \<Rightarrow> m')) \<subseteq> item_id ` set its"
  proof (cases userAnswer)
    case None
    then show ?thesis by simp
  next
    case (Some m')
    with select.IH [of m'] show ?thesis by simp
  qed
  moreover from select.prems have
    "m = fmupd (item_id item) (target_id target)
           (case userAnswer of None \<Rightarrow> fmempty | Some m' \<Rightarrow> m')"
    by (simp add: handleSelectChange_def)
  ultimately show ?case
    using select.hyps(2) by auto
qed

lemma selections_keys:
  assumes "selections its tgs (Some m)"
  shows "fmdom m |\<subseteq>| fset_of_list (map item_id its)"
  using selections_key_set [OF assms refl]
  by (simp add: less_eq_fset.rep_eq fset_of_list.rep_eq)

text \<open>
  C5. For every match question whose correct-pairing map has the ids of its items as its
  keys (as every match question of the composer has) and every map the view can submit
  for it, the grader marks the question correct if and only if the submitted map has the
  same size as the correct-pairing map and agrees with it on every item id; the view
  shows the same verdict, and both hold exactly when the two maps are equal.
\<close>

theorem match_grading:
  assumes "selections its tgs (Some m)"
    and "fmdom pairs = fset_of_list (map item_id its)"
  shows "isQuestionCorrect (Match i ins its tgs pairs) (Some (Pairs m)) =
           Inr (fcard (fmdom m) = fcard (fmdom pairs)
                \<and> (\<forall>itemId. itemId |\<in>| fmdom pairs \<longrightarrow>
                       fmlookup m itemId = fmlookup pairs itemId))
         \<and> matchViewIsCorrect True (Some m) pairs =
             (fcard (fmdom m) = fcard (fmdom pairs)
              \<and> (\<forall>itemId. itemId |\<in>| fmdom pairs \<longrightarrow>
                     fmlookup m itemId = fmlookup pairs itemId))
         \<and> ((fcard (fmdom m) = fcard (fmdom pairs)
              \<and> (\<forall>itemId. itemId |\<in>| fmdom pairs \<longrightarrow>
                     fmlookup m itemId = fmlookup pairs itemId)) \<longleftrightarrow> m = pairs)"
proof -
  let ?same = "fcard (fmdom m) = fcard (fmdom pairs)
                \<and> (\<forall>itemId. itemId |\<in>| fmdom pairs \<longrightarrow>
                       fmlookup m itemId = fmlookup pairs itemId)"
  have sub: "fmdom m |\<subseteq>| fmdom pairs"
    using selections_keys [OF assms(1)] assms(2) by simp
  have am: "allMatched m pairs \<longleftrightarrow> ?same"
    using sub by (rule allMatched_same_size)
  have 1: "isQuestionCorrect (Match i ins its tgs pairs) (Some (Pairs m)) = Inr ?same"
    by (simp add: isQuestionCorrect_def am)
  have "allMatched m pairs \<Longrightarrow> \<not> fcard (fmdom m) < fcard (fmdom pairs)"
    by (simp add: allMatched_dom fcard_mono leD)
  then have 2: "matchViewIsCorrect True (Some m) pairs = ?same"
    unfolding am [symmetric] by (auto simp: matchViewIsCorrect_def)
  have 3: "?same \<longleftrightarrow> m = pairs"
  proof
    assume s: ?same
    then have "allMatched m pairs" by (simp add: am)
    then have "fmdom pairs |\<subseteq>| fmdom m" by (rule allMatched_dom)
    with sub have d: "fmdom m = fmdom pairs" by auto
    show "m = pairs"
    proof (rule fmap_ext)
      fix x
      show "fmlookup m x = fmlookup pairs x"
      proof (cases "x |\<in>| fmdom pairs")
        case True
        with s show ?thesis by simp
      next
        case False
        with d show ?thesis by (simp add: fmdom_notD)
      qed
    qed
  next
    assume "m = pairs"
    then show ?same by simp
  qed
  from 1 2 3 show ?thesis by simp
qed

lemma selections_fourPairs: "selections fourItems fourTargets (Some fourPairs)"
proof -
  have 0: "selections fourItems fourTargets
      (Some (handleSelectChange None (item_id (MatchItem ''item-0'' ''lucid''))
               (target_id (MatchTarget ''target-0'' ''easy to understand''))))"
    by (rule selections.select [OF selections.untouched]) (simp_all add: fourItems_def fourTargets_def)
  have 1: "selections fourItems fourTargets
      (Some (handleSelectChange (Some (fmupd ''item-0'' ''target-0'' fmempty))
               (item_id (MatchItem ''item-1'' ''terse''))
               (target_id (MatchTarget ''target-1'' ''using few words''))))"
    using 0 by (intro selections.select) (simp_all add: fourItems_def fourTargets_def handleSelectChange_def)
  have 2: "selections fourItems fourTargets
      (Some (handleSelectChange (Some (fmupd ''item-1'' ''target-1'' (fmupd ''item-0'' ''target-0'' fmempty)))
               (item_id (MatchItem ''item-2'' ''candid''))
               (target_id (MatchTarget ''target-2'' ''truthful and direct''))))"
    using 1 by (intro selections.select) (simp_all add: fourItems_def fourTargets_def handleSelectChange_def)
  have 3: "selections fourItems fourTargets
      (Some (handleSelectChange (Some (fmupd ''item-2'' ''target-2''
                (fmupd ''item-1'' ''target-1'' (fmupd ''item-0'' ''target-0'' fmempty))))
               (item_id (MatchItem ''item-3'' ''ambiguous''))
               (target_id (MatchTarget ''target-3'' ''open to more than one interpretation''))))"
    using 2 by (intro selections.select) (simp_all add: fourItems_def fourTargets_def handleSelectChange_def)
  then show ?thesis
    by (simp add: handleSelectChange_def fourPairs_def)
qed

lemma selections_wrong:
  "selections fourItems fourTargets (Some (fmupd ''item-0'' ''target-1'' fmempty))"
proof -
  have "selections fourItems fourTargets
      (Some (handleSelectChange None (item_id (MatchItem ''item-0'' ''lucid''))
               (target_id (MatchTarget ''target-1'' ''using few words''))))"
    by (rule selections.select [OF selections.untouched]) (simp_all add: fourItems_def fourTargets_def)
  then show ?thesis
    by (simp add: handleSelectChange_def)
qed

theorem match_grading_witness:
  "selections fourItems fourTargets (Some fourPairs)
   \<and> fmdom fourPairs = fset_of_list (map item_id fourItems)
   \<and> isQuestionCorrect fourMatch (Some (Pairs fourPairs)) = Inr True
   \<and> selections fourItems fourTargets (Some (fmupd ''item-0'' ''target-1'' fmempty))
   \<and> isQuestionCorrect fourMatch (Some (Pairs (fmupd ''item-0'' ''target-1'' fmempty))) = Inr False
   \<and> fcard (fmdom (fmupd ''item-0'' ''target-1'' fmempty)) = 1
   \<and> fcard (fmdom fourPairs) = 4"
proof -
  have d: "fmdom fourPairs = fset_of_list (map item_id fourItems)"
    by (auto simp: fourPairs_def fourItems_def)
  have c: "fcard (fmdom (fmupd ''item-0'' ''target-1'' fmempty)) = 1" "fcard (fmdom fourPairs) = 4"
    by (simp_all add: fourPairs_def fcard_finsert_if)
  from match_grading [OF selections_fourPairs d, of "''match-q1''"
      "''Match each term to its correct definition.''"]
    match_grading [OF selections_wrong d, of "''match-q1''"
      "''Match each term to its correct definition.''"]
    selections_fourPairs selections_wrong d c
  show ?thesis
    by (simp add: fourMatch_def)
qed

lemma isQuestionCorrect_None: "isQuestionCorrect q None = Inr False"
  by (simp add: isQuestionCorrect_def)

lemma countCorrect_append:
  "countCorrect ans (qs1 @ qs2) c =
     (case countCorrect ans qs1 c of Inl e \<Rightarrow> Inl e | Inr c' \<Rightarrow> countCorrect ans qs2 c')"
  by (induction qs1 arbitrary: c) (auto split: sum.splits)

lemma countCorrect_skip:
  "fmlookup ans (qid q) = None \<Longrightarrow>
   countCorrect ans (qs1 @ q # qs2) c = countCorrect ans (qs1 @ qs2) c"
  by (simp add: countCorrect_append isQuestionCorrect_None split: sum.splits)

lemma countCorrect_unanswered:
  "\<forall>q \<in> set qs. fmlookup ans (qid q) = None \<Longrightarrow> countCorrect ans qs c = Inr c"
  by (induction qs) (simp_all add: isQuestionCorrect_None)

text \<open>
  C9. A question without an entry in the answers is graded incorrect without an error,
  whatever its type: the batch pass gives the score (or fails) as it does on the
  assessment without that question, and an assessment with no answer at all is submitted
  with score 0.
\<close>

theorem unanswered_is_incorrect:
  assumes "fmlookup (answers st) (qid q) = None"
    and "assessmentData st = Some d"
    and "questions d = qs1 @ q # qs2"
  shows "isQuestionCorrect q (fmlookup (answers st) (qid q)) = Inr False
         \<and> map_sum id score (handleSubmit st) =
             map_sum id score (handleSubmit (st\<lparr>assessmentData := Some (d\<lparr>questions := qs1 @ qs2\<rparr>)\<rparr>))
         \<and> ((\<forall>q' \<in> set (questions d). fmlookup (answers st) (qid q') = None) \<longrightarrow>
              handleSubmit st = Inr (st\<lparr>score := 0, status := Submitted\<rparr>))"
proof -
  have "isQuestionCorrect q (fmlookup (answers st) (qid q)) = Inr False"
    using assms(1) by (simp add: isQuestionCorrect_None)
  moreover have "countCorrect (answers st) (qs1 @ q # qs2) 0 = countCorrect (answers st) (qs1 @ qs2) 0"
    using assms(1) by (rule countCorrect_skip)
  then have "map_sum id score (handleSubmit st) =
             map_sum id score (handleSubmit (st\<lparr>assessmentData := Some (d\<lparr>questions := qs1 @ qs2\<rparr>)\<rparr>))"
    using assms(2,3) by (simp add: handleSubmit_def split: sum.splits)
  moreover have "(\<forall>q' \<in> set (questions d). fmlookup (answers st) (qid q') = None) \<longrightarrow>
              handleSubmit st = Inr (st\<lparr>score := 0, status := Submitted\<rparr>)"
    using assms(2) by (simp add: handleSubmit_def countCorrect_unanswered)
  ultimately show ?thesis
    by blast
qed

theorem unanswered_is_incorrect_witness:
  "fmlookup (answers (takingState (fmupd ''written-0'' (Text ''It is ambiguous.'') fmempty))) ''fill-0'' = None
   \<and> handleSubmit (takingState (fmupd ''written-0'' (Text ''It is ambiguous.'') fmempty))
       = Inr ((takingState (fmupd ''written-0'' (Text ''It is ambiguous.'') fmempty))
                \<lparr>score := 1, status := Submitted\<rparr>)
   \<and> handleSubmit (takingState fmempty) = Inr ((takingState fmempty)\<lparr>score := 0, status := Submitted\<rparr>)"
proof -
  let ?st = "takingState (fmupd ''written-0'' (Text ''It is ambiguous.'') fmempty)"
  let ?d = "\<lparr>title = ''Vocabulary Assessment (2 Questions)'', questions = ambiguousQuestions\<rparr>"
  let ?fill = "FillBlank ''fill-0'' ''The contract was _____ in places.'' ''ambiguous''"
  have 1: "fmlookup (answers ?st) (qid ?fill) = None"
    by (simp add: takingState_def)
  have 2: "assessmentData ?st = Some ?d"
    by (simp add: takingState_def)
  have 3: "questions ?d = [Written ''written-0''
        (''Write your own sentence using the word '' @ quote @ ''ambiguous'' @ quote @ ''.'')
        ''The contract was **ambiguous** in places.''] @ ?fill # []"
    by (simp add: ambiguousQuestions_def)
  have 4: "handleSubmit ?st = Inr (?st\<lparr>score := 1, status := Submitted\<rparr>)"
    by (simp add: handleSubmit_def takingState_def ambiguousQuestions_def isQuestionCorrect_def
        trim_def isWhiteSpace_def)
  have 5: "handleSubmit (takingState fmempty) = Inr ((takingState fmempty)\<lparr>score := 0, status := Submitted\<rparr>)"
    by (simp add: handleSubmit_def takingState_def ambiguousQuestions_def isQuestionCorrect_def)
  have 6: "fmlookup (answers (takingState fmempty)) (qid ?fill) = None"
    and 7: "assessmentData (takingState fmempty) = Some ?d"
    by (simp_all add: takingState_def)
  from unanswered_is_incorrect [OF 1 2 3] unanswered_is_incorrect [OF 6 7 3] 1 4 5
  show ?thesis
    by simp
qed

section \<open>The match and multiple-choice questions\<close>

lemma take_4:
  assumes "4 \<le> length xs"
  shows "take 4 xs = [xs ! 0, xs ! 1, xs ! 2, xs ! 3]"
proof -
  from assms obtain a b c d rest where "xs = a # b # c # d # rest"
    by (cases xs; cases "tl xs"; cases "tl (tl xs)"; cases "tl (tl (tl xs))") auto
  then show ?thesis
    by (simp add: numeral_nat)
qed

lemma firstDefinition_hd: "meanings t \<noteq> [] \<Longrightarrow> firstDefinition t = Inr (meaning_definition (hd (meanings t)))"
  by (cases "meanings t") (simp_all add: firstDefinition_def)

lemma indexed_4: "indexed [a, b, c, d] = [(a, 0), (b, 1), (c, 2), (d, 3)]"
  by (simp add: indexed_def upt_rec numeral_nat)

lemma matchQuestion_explicit:
  assumes "4 \<le> length shuffledTerms"
    and "\<forall>t \<in> set (take 4 shuffledTerms). meanings t \<noteq> []"
  shows "matchQuestion shuffledTerms =
     Inr [Match ''match-q1'' ''Match each term to its correct definition.''
            [MatchItem ''item-0'' (term_text (shuffledTerms ! 0)),
             MatchItem ''item-1'' (term_text (shuffledTerms ! 1)),
             MatchItem ''item-2'' (term_text (shuffledTerms ! 2)),
             MatchItem ''item-3'' (term_text (shuffledTerms ! 3))]
            [MatchTarget ''target-0'' (meaning_definition (hd (meanings (shuffledTerms ! 0)))),
             MatchTarget ''target-1'' (meaning_definition (hd (meanings (shuffledTerms ! 1)))),
             MatchTarget ''target-2'' (meaning_definition (hd (meanings (shuffledTerms ! 2)))),
             MatchTarget ''target-3'' (meaning_definition (hd (meanings (shuffledTerms ! 3))))]
            (fmupd ''item-3'' ''target-3'' (fmupd ''item-2'' ''target-2''
               (fmupd ''item-1'' ''target-1'' (fmupd ''item-0'' ''target-0'' fmempty))))]"
proof -
  have t: "take 4 shuffledTerms =
             [shuffledTerms ! 0, shuffledTerms ! 1, shuffledTerms ! 2, shuffledTerms ! 3]"
    using assms(1) by (rule take_4)
  with assms(2) have m: "meanings (shuffledTerms ! 0) \<noteq> []" "meanings (shuffledTerms ! 1) \<noteq> []"
    "meanings (shuffledTerms ! 2) \<noteq> []" "meanings (shuffledTerms ! 3) \<noteq> []"
    by simp_all
  note fd = m [THEN firstDefinition_hd]
  show ?thesis
    using assms(1) fd
    by (simp add: matchQuestion_def t matchItemsOf_def matchTargetsOf_def correctPairsOf_def
        indexed_4 decimal_digit digitChar_def)
qed

lemma mcqQuestion_cases:
  assumes "mcqQuestion pool t index g = Inr (qs, g')"
  shows "qs = [] \<or> (\<exists>q. qs = [q] \<and> is_MCQ q)"
  using assms
  by (auto simp: mcqQuestion_def Let_def split: if_splits prod.splits sum.splits)

lemma fillBlankQuestion_cases:
  assumes "fillBlankQuestion engine t index = Inr qs"
  shows "qs = [] \<or> (\<exists>q. qs = [q] \<and> is_FillBlank q)"
  using assms
  by (auto simp: fillBlankQuestion_def split: option.splits if_splits sum.splits)

lemma forEachTerm_new:
  assumes "forEachTerm engine pool its acc g = Inr (qs, g')"
  shows "\<exists>new. qs = acc @ new
           \<and> (\<forall>q \<in> set new. \<not> is_Match q)
           \<and> (\<forall>(t, index) \<in> set its. writtenQuestion t index \<in> set new)
           \<and> (\<forall>q \<in> set new. is_MCQ q \<longrightarrow>
                 (\<exists>t index g0 g1. (t, index) \<in> set its
                    \<and> mcqQuestion pool t index g0 = Inr ([q], g1)))"
  using assms
proof (induction its arbitrary: acc g)
  case Nil
  then show ?case by simp
next
  case (Cons a its)
  obtain t index where a: "a = (t, index)" by (cases a)
  from Cons.prems a obtain mcq g1 fill where
    m: "mcqQuestion pool t index g = Inr (mcq, g1)" and
    f: "fillBlankQuestion engine t index = Inr fill" and
    r: "forEachTerm engine pool its (acc @ mcq @ fill @ [writtenQuestion t index]) g1 = Inr (qs, g')"
    by (auto split: sum.splits prod.splits)
  from Cons.IH [OF r] obtain new where
    n: "qs = (acc @ mcq @ fill @ [writtenQuestion t index]) @ new"
    "\<forall>q \<in> set new. \<not> is_Match q"
    "\<forall>(t, index) \<in> set its. writtenQuestion t index \<in> set new"
    "\<forall>q \<in> set new. is_MCQ q \<longrightarrow>
       (\<exists>t index g0 g1. (t, index) \<in> set its \<and> mcqQuestion pool t index g0 = Inr ([q], g1))"
    by blast
  let ?new = "mcq @ fill @ [writtenQuestion t index] @ new"
  have 1: "qs = acc @ ?new"
    using n(1) by simp
  have mc: "mcq = [] \<or> (\<exists>q. mcq = [q] \<and> is_MCQ q)"
    using m by (rule mcqQuestion_cases)
  have fc: "fill = [] \<or> (\<exists>q. fill = [q] \<and> is_FillBlank q)"
    using f by (rule fillBlankQuestion_cases)
  have 2: "\<forall>q \<in> set ?new. \<not> is_Match q"
    using mc fc n(2) by (auto simp: writtenQuestion_def is_MCQ_def is_FillBlank_def)
  have 3: "\<forall>(t, index) \<in> set (a # its). writtenQuestion t index \<in> set ?new"
    using n(3) a by auto
  have 4: "\<forall>q \<in> set ?new. is_MCQ q \<longrightarrow>
       (\<exists>t index g0 g1. (t, index) \<in> set (a # its)
          \<and> mcqQuestion pool t index g0 = Inr ([q], g1))"
  proof (intro ballI impI)
    fix q assume q: "q \<in> set ?new" "is_MCQ q"
    then consider "q \<in> set mcq" | "q \<in> set new"
      using fc by (auto simp: writtenQuestion_def is_FillBlank_def)
    then show "\<exists>t index g0 g1. (t, index) \<in> set (a # its)
          \<and> mcqQuestion pool t index g0 = Inr ([q], g1)"
    proof cases
      case 1
      with mc have "mcq = [q]" by auto
      with m a show ?thesis by auto
    next
      case 2
      with n(4) q(2) show ?thesis by fastforce
    qed
  qed
  from 1 2 3 4 show ?case by blast
qed

lemma filter_Match_single:
  assumes "mset xs \<subseteq># mset ys" "filter is_Match ys = [q]"
  shows "filter is_Match xs = [q] \<or> filter is_Match xs = []"
proof -
  have le: "filter_mset is_Match (mset xs) \<subseteq># filter_mset is_Match (mset ys)"
    using assms(1) by (rule multiset_filter_mono)
  have ys: "filter_mset is_Match (mset ys) = {#q#}"
    using assms(2) by (metis mset_filter mset_single_iff_right)
  have xs: "filter_mset is_Match (mset xs) = mset (filter is_Match xs)"
    by (simp only: mset_filter)
  from le have sub: "mset (filter is_Match xs) \<subseteq># {#q#}"
    unfolding ys xs .
  have "size (mset (filter is_Match xs)) \<le> size {#q#}"
    using sub by (rule size_mset_mono)
  then have len: "length (filter is_Match xs) \<le> 1"
    by (simp only: size_mset size_single)
  have "set_mset (mset (filter is_Match xs)) \<subseteq> set_mset {#q#}"
    using sub by (rule set_mset_mono)
  then have st: "set (filter is_Match xs) \<subseteq> {q}"
    by (simp only: set_mset_mset set_mset_single)
  from len st show ?thesis
    by (cases "filter is_Match xs") auto
qed

lemma shuffleArray_four_firstIndex:
  "fst (shuffleArray firstIndex [a, b, c, d]) = [b, c, d, a]"
  by (simp add: shuffleArray_def randomBelow_def firstIndex_def)

lemma mcqQuestion_skip:
  assumes "length (filter (\<lambda>u. term_text u \<noteq> term_text X) pool) < 3"
  shows "\<exists>g'. mcqQuestion pool X index g = Inr ([], g')"
proof (cases "4 \<le> length pool")
  case False
  then show ?thesis by (simp add: mcqQuestion_def)
next
  case True
  obtain sh g1 where s: "shuffleArray g (filter (\<lambda>u. term_text u \<noteq> term_text X) pool) = (sh, g1)"
    by (cases "shuffleArray g (filter (\<lambda>u. term_text u \<noteq> term_text X) pool)")
  then have "length sh = length (filter (\<lambda>u. term_text u \<noteq> term_text X) pool)"
    using shuffleArray_length [of g "filter (\<lambda>u. term_text u \<noteq> term_text X) pool"] by simp
  with assms have "length (take 3 sh) \<noteq> 3"
    by simp
  then show ?thesis
    using True s by (simp add: mcqQuestion_def Let_def del: length_take)
qed

lemma mcqQuestion_produced:
  assumes "4 \<le> length pool"
    and "3 \<le> length (filter (\<lambda>u. term_text u \<noteq> term_text X) pool)"
    and "meanings X \<noteq> []"
  shows "\<exists>q g'. mcqQuestion pool X index g = Inr ([q], g') \<and> is_MCQ q"
proof -
  obtain sh g1 where s: "shuffleArray g (filter (\<lambda>u. term_text u \<noteq> term_text X) pool) = (sh, g1)"
    by (cases "shuffleArray g (filter (\<lambda>u. term_text u \<noteq> term_text X) pool)")
  then have "length sh = length (filter (\<lambda>u. term_text u \<noteq> term_text X) pool)"
    using shuffleArray_length [of g "filter (\<lambda>u. term_text u \<noteq> term_text X) pool"] by simp
  with assms(2) have l: "length (take 3 sh) = 3"
    by simp
  obtain opts g2 where o: "shuffleArray g1 (term_text X # map term_text (take 3 sh)) = (opts, g2)"
    by (cases "shuffleArray g1 (term_text X # map term_text (take 3 sh))")
  show ?thesis
    using assms(1) s l o firstDefinition_hd [OF assms(3)]
    by (simp add: mcqQuestion_def Let_def del: length_take)
qed

lemma mcqQuestion_options:
  assumes "mcqQuestion pool X index g = Inr (qs, g')" and "q \<in> set qs"
  shows "qs = [q] \<and> is_MCQ q \<and> 4 \<le> length pool
         \<and> correctAnswer q = term_text X
         \<and> length (options q) = 4
         \<and> count (mset (options q)) (term_text X) = 1
         \<and> mset (options q) - {#term_text X#}
              \<subseteq># mset (map term_text (filter (\<lambda>u. term_text u \<noteq> term_text X) pool))
         \<and> size (mset (options q) - {#term_text X#}) = 3
         \<and> (distinct (map term_text pool) \<longrightarrow> distinct (options q))"
proof -
  let ?rest = "filter (\<lambda>u. term_text u \<noteq> term_text X) pool"
  obtain sh g1 where s: "shuffleArray g ?rest = (sh, g1)"
    by (cases "shuffleArray g ?rest")
  let ?distractors = "map term_text (take 3 sh)"
  obtain opts g2 where o: "shuffleArray g1 (term_text X # ?distractors) = (opts, g2)"
    by (cases "shuffleArray g1 (term_text X # ?distractors)")
  from assms s o have pl: "4 \<le> length pool" and l3: "length (take 3 sh) = 3"
    and q: "qs = [q]" "is_MCQ q" "correctAnswer q = term_text X" "options q = opts"
    by (auto simp: mcqQuestion_def Let_def simp del: length_take split: if_splits sum.splits)
  have msh: "mset sh = mset ?rest"
    using shuffleArray_mset [of g ?rest] s by simp
  have mo: "mset opts = add_mset (term_text X) (mset ?distractors)"
    using shuffleArray_mset [of g1 "term_text X # ?distractors"] o by simp
  have "mset (take 3 sh) \<subseteq># mset sh"
    by (metis append_take_drop_id mset_append mset_subset_eq_add_left)
  then have sub: "mset ?distractors \<subseteq># mset (map term_text ?rest)"
    unfolding msh [symmetric] mset_map by (rule image_mset_subseteq_mono)
  have "set (take 3 sh) \<subseteq> set ?rest"
    using set_take_subset [of 3 sh] msh by (metis set_mset_mset)
  then have notin: "term_text X \<notin> set ?distractors"
    by auto
  have "count (mset ?distractors) (term_text X) = 0"
    using notin by (simp only: count_mset_0_iff not_False_eq_True)
  then have c1: "count (mset opts) (term_text X) = 1"
    unfolding mo by simp
  have "length opts = Suc (length ?distractors)"
    using mo by (metis length_Cons mset.simps(2) size_mset)
  with l3 have len: "length opts = 4"
    by (simp del: length_take)
  have diff: "mset opts - {#term_text X#} = mset ?distractors"
    by (simp add: mo)
  have sz: "size (mset opts - {#term_text X#}) = 3"
    unfolding diff using l3 by (simp del: length_take)
  have dist: "distinct opts" if d: "distinct (map term_text pool)"
  proof -
    from d have "distinct (map term_text ?rest)"
      by (rule distinct_map_filter)
    then have "distinct (map term_text sh)"
      using msh by (metis mset_eq_imp_distinct_iff mset_map)
    then have "distinct (map term_text (take 3 sh))"
      by (metis distinct_take take_map)
    with notin have "distinct (term_text X # ?distractors)"
      by simp
    then show ?thesis
      using mo by (metis mset.simps(2) mset_eq_imp_distinct_iff)
  qed
  show ?thesis
    using q pl c1 len sub sz dist by (simp add: diff)
qed

lemma shuffleArray_three_firstIndex:
  "shuffleArray (\<lambda>i. 0) [a, b, c] = ([b, c, a], \<lambda>i. 0)"
  by (simp add: shuffleArray_def randomBelow_def)

lemma shuffleArray_four_zero:
  "shuffleArray (\<lambda>i. 0) [a, b, c, d] = ([b, c, d, a], \<lambda>i. 0)"
  by (simp add: shuffleArray_def randomBelow_def)

lemma shuffleArray_two_zero:
  "shuffleArray (\<lambda>i. 0) [a, b] = ([b, a], \<lambda>i. 0)"
  by (simp add: shuffleArray_def randomBelow_def)

text \<open>
  C2 (as amended). For every pool, selected term \<open>X\<close>, index and outcome of the shuffles:
  a multiple-choice question is produced when the pool has at least 4 entries, at least
  3 of them have a text other than that of \<open>X\<close>, and \<open>X\<close> has a meaning. Whenever one is
  produced, its options are 4 entries, the text of \<open>X\<close> is among them exactly once, and
  the other 3 are the texts of 3 different entries of the pool whose text is not that of
  \<open>X\<close> (a sub-multiset of the texts of the remaining pool); they are pairwise distinct
  when the texts of the pool are. With fewer than 3 entries whose text is not that of
  \<open>X\<close>, no question is produced and no error is raised.
\<close>

theorem mcq_options:
  "(length (filter (\<lambda>u. term_text u \<noteq> term_text X) pool) < 3 \<longrightarrow>
      (\<exists>g'. mcqQuestion pool X index g = Inr ([], g')))
   \<and> (4 \<le> length pool \<and> 3 \<le> length (filter (\<lambda>u. term_text u \<noteq> term_text X) pool)
        \<and> meanings X \<noteq> [] \<longrightarrow>
      (\<exists>q g'. mcqQuestion pool X index g = Inr ([q], g') \<and> is_MCQ q))
   \<and> (\<forall>qs g' q. mcqQuestion pool X index g = Inr (qs, g') \<and> q \<in> set qs \<longrightarrow>
        qs = [q] \<and> is_MCQ q \<and> 4 \<le> length pool
        \<and> correctAnswer q = term_text X
        \<and> length (options q) = 4
        \<and> count (mset (options q)) (term_text X) = 1
        \<and> mset (options q) - {#term_text X#}
             \<subseteq># mset (map term_text (filter (\<lambda>u. term_text u \<noteq> term_text X) pool))
        \<and> size (mset (options q) - {#term_text X#}) = 3
        \<and> (distinct (map term_text pool) \<longrightarrow> distinct (options q)))"
  using mcqQuestion_skip [of X pool index g] mcqQuestion_produced [of pool X index g]
    mcqQuestion_options [of pool X index g]
  by blast

lemma mcq_fourTerms:
  "mcqQuestion fourTerms ambiguousTerm 0 firstIndex =
     Inr ([MCQ ''mcq-0''
             (''Which word best fits the definition: '' @ quote
                @ ''open to more than one interpretation'' @ quote)
             [''terse'', ''candid'', ''lucid'', ''ambiguous''] ''ambiguous''], \<lambda>i. 0)"
  by (simp add: mcqQuestion_def fourTerms_def firstIndex_def ambiguousTerm_def lucidTerm_def
      terseTerm_def candidTerm_def shuffleArray_three_firstIndex shuffleArray_four_zero
      firstDefinition_def decimal_digit digitChar_def Let_def quote_def)

lemma mcq_repeatedPool:
  "mcqQuestion repeatedPool ambiguousTerm 0 firstIndex = Inr ([], \<lambda>i. 0)"
  by (simp add: mcqQuestion_def repeatedPool_def firstIndex_def ambiguousTerm_def lucidTerm_def
      terseTerm_def shuffleArray_two_zero Let_def)

theorem mcq_options_witness:
  "length (filter (\<lambda>u. term_text u \<noteq> term_text ambiguousTerm) repeatedPool) < 3
   \<and> mcqQuestion repeatedPool ambiguousTerm 0 firstIndex = Inr ([], \<lambda>i. 0)
   \<and> 4 \<le> length fourTerms
   \<and> 3 \<le> length (filter (\<lambda>u. term_text u \<noteq> term_text ambiguousTerm) fourTerms)
   \<and> meanings ambiguousTerm \<noteq> []
   \<and> distinct (map term_text fourTerms)
   \<and> mcqQuestion fourTerms ambiguousTerm 0 firstIndex =
       Inr ([MCQ ''mcq-0''
               (''Which word best fits the definition: '' @ quote
                  @ ''open to more than one interpretation'' @ quote)
               [''terse'', ''candid'', ''lucid'', ''ambiguous''] ''ambiguous''], \<lambda>i. 0)
   \<and> distinct [''terse'', ''candid'', ''lucid'', ''ambiguous'']"
  using mcq_options [of ambiguousTerm repeatedPool 0 firstIndex]
    mcq_options [of ambiguousTerm fourTerms 0 firstIndex]
    mcq_repeatedPool mcq_fourTerms
  by (simp add: repeatedPool_def fourTerms_def ambiguousTerm_def lucidTerm_def terseTerm_def
      candidTerm_def)

text \<open>In a pool where three entries have the same text, the question for the fourth
  term is produced with three equal distractors, although a single distinct distractor
  is available.\<close>

theorem mcq_options_counterexample:
  "4 \<le> length duplicatePool
   \<and> mcqQuestion duplicatePool ambiguousTerm 0 firstIndex =
       Inr ([MCQ ''mcq-0''
               (''Which word best fits the definition: '' @ quote
                  @ ''open to more than one interpretation'' @ quote)
               [''lucid'', ''lucid'', ''lucid'', ''ambiguous''] ''ambiguous''], \<lambda>i. 0)
   \<and> \<not> distinct [''lucid'', ''lucid'', ''lucid'']
   \<and> card (set (map term_text
         (filter (\<lambda>u. term_text u \<noteq> term_text ambiguousTerm) duplicatePool))) = 1"
  by (simp add: mcqQuestion_def duplicatePool_def firstIndex_def ambiguousTerm_def lucidTerm_def
      shuffleArray_three_firstIndex shuffleArray_four_zero
      firstDefinition_def decimal_digit digitChar_def Let_def quote_def)

text \<open>The options of every multiple-choice question of a returned assessment are of
  this form, with the input list as the pool.\<close>

lemma generateAssessment_mcq:
  assumes "generateAssessmentFromTerms engine g terms = Inr a"
    and "q \<in> set (questions a)" and "is_MCQ q"
  shows "\<exists>X \<in> set terms.
           correctAnswer q = term_text X \<and> length (options q) = 4
           \<and> count (mset (options q)) (term_text X) = 1
           \<and> mset (options q) - {#term_text X#}
                \<subseteq># mset (map term_text (filter (\<lambda>u. term_text u \<noteq> term_text X) terms))
           \<and> (distinct (map term_text terms) \<longrightarrow> distinct (options q))"
proof -
  from assms(1) obtain qs g' where c: "collectQuestions engine g terms = Inr (qs, g')"
    by (auto simp: generateAssessmentFromTerms_def split: sum.splits)
  with assms(1) have "questions a = take (targetQuestionCount (length terms)) (fst (shuffleArray g' qs))"
    by (auto simp: generateAssessmentFromTerms_def Let_def)
  with assms(2) have "q \<in> set (fst (shuffleArray g' qs))"
    by (auto dest: in_set_takeD)
  then have qin: "q \<in> set qs"
    by (simp only: shuffleArray_set)
  obtain pool g1 where s: "shuffleArray g terms = (pool, g1)"
    by (cases "shuffleArray g terms")
  then have mp: "mset pool = mset terms"
    using shuffleArray_mset [of g terms] by simp
  from c s obtain m where m: "matchQuestion pool = Inr m"
    and f: "forEachTerm engine pool (indexed pool) m g1 = Inr (qs, g')"
    by (auto simp: collectQuestions_def split: sum.splits)
  from m have mm: "\<forall>x \<in> set m. is_Match x"
    by (auto simp: matchQuestion_def Let_def split: if_splits sum.splits)
  from forEachTerm_new [OF f] obtain new where n: "qs = m @ new"
    "\<forall>q \<in> set new. is_MCQ q \<longrightarrow>
       (\<exists>t index g0 g1. (t, index) \<in> set (indexed pool)
          \<and> mcqQuestion pool t index g0 = Inr ([q], g1))"
    by blast
  from assms(3) mm have "q \<notin> set m"
    by (auto simp: is_MCQ_def is_Match_def)
  with qin n(1) have "q \<in> set new"
    by simp
  with n(2) assms(3) obtain X index g0 g2 where
    X: "(X, index) \<in> set (indexed pool)" "mcqQuestion pool X index g0 = Inr ([q], g2)"
    by blast
  from X(1) have "X \<in> set pool"
    unfolding indexed_def by (rule set_zip_leftD)
  then have Xt: "X \<in> set terms"
    using mp by (metis set_mset_mset)
  have fm: "mset (map term_text (filter (\<lambda>u. term_text u \<noteq> term_text X) pool))
          = mset (map term_text (filter (\<lambda>u. term_text u \<noteq> term_text X) terms))"
    using mp by (metis mset_filter mset_map)
  have dm: "distinct (map term_text pool) \<longleftrightarrow> distinct (map term_text terms)"
    using mp by (metis mset_eq_imp_distinct_iff mset_map)
  from mcqQuestion_options [OF X(2), of q] Xt show ?thesis
    unfolding fm dm by auto
qed

section \<open>The fill-in-the-blank question\<close>

lemma char_of_inject_small:
  "x < 256 \<Longrightarrow> y < 256 \<Longrightarrow> char_of x = (char_of y :: char) \<longleftrightarrow> x = (y :: nat)"
  by (simp add: char_of_eq_iff take_bit_nat_eq_self)

lemma of_char_char_of_small: "x < 256 \<Longrightarrow> of_char (char_of x :: char) = (x :: nat)"
  by (simp add: take_bit_nat_eq_self)

lemma toLowerChar_canonicalize: "toLowerChar (canonicalize c) = toLowerChar c"
proof -
  define n where "n = (of_char c :: nat)"
  have c: "c = char_of n" and n: "n < 256"
    by (simp_all add: n_def)
  show ?thesis
    unfolding c canonicalize_def toLowerChar_def Let_def
    using n by (auto simp: of_char_char_of_small char_of_inject_small)
qed

lemma canonicalize_toLowerChar: "canonicalize (toLowerChar c) = canonicalize c"
proof -
  define n where "n = (of_char c :: nat)"
  have c: "c = char_of n" and n: "n < 256"
    by (simp_all add: n_def)
  show ?thesis
    unfolding c canonicalize_def toLowerChar_def Let_def
    using n by (auto simp: of_char_char_of_small char_of_inject_small)
qed

lemma fold_case:
  "canonicalize a = canonicalize b \<longleftrightarrow> toLowerChar a = toLowerChar b"
  by (metis toLowerChar_canonicalize canonicalize_toLowerChar)

lemma matchesAt_occursAt: "matchesAt w s \<longleftrightarrow> occursAt w s"
proof (induction w s rule: matchesAt.induct)
  case (1 s)
  then show ?case by (simp add: occursAt_def)
next
  case (2 p ps)
  then show ?case by (simp add: occursAt_def toLowerCase_def)
next
  case (3 p ps c cs)
  then show ?case
    by (auto simp: occursAt_def toLowerCase_def fold_case)
qed

lemma replaceLiteral_spec:
  "w \<noteq> [] \<Longrightarrow> replaceLiteral w s = blankOccurrences w s"
proof (induction w s rule: replaceLiteral.induct)
  case (1 p)
  then show ?case by (simp add: blankOccurrences.simps [of p "[]"])
next
  case (2 p c cs)
  then show ?case
    by (simp add: blankOccurrences.simps [of p "c # cs"] matchesAt_occursAt)
qed

lemma stripEmphasis_not_star:
  "b \<noteq> CHR ''*'' \<Longrightarrow> stripEmphasis (b # s) = b # stripEmphasis s"
  by (cases s) simp_all

lemma stripEmphasis_no_markers:
  "Suc i < length (stripEmphasis s) \<Longrightarrow>
   \<not> (stripEmphasis s ! i = CHR ''*'' \<and> stripEmphasis s ! Suc i = CHR ''*'')"
proof (induction s arbitrary: i rule: stripEmphasis.induct)
  case (1 a b s)
  show ?case
  proof (cases "a = CHR ''*'' \<and> b = CHR ''*''")
    case True
    with 1 show ?thesis by simp
  next
    case False
    then have e: "stripEmphasis (a # b # s) = a # stripEmphasis (b # s)" by auto
    show ?thesis
    proof (cases i)
      case 0
      show ?thesis
      proof (cases "a = CHR ''*''")
        case True
        with False have "b \<noteq> CHR ''*''" by simp
        then show ?thesis using 0 by (simp add: e stripEmphasis_not_star)
      next
        case False
        then show ?thesis using 0 by (simp add: e)
      qed
    next
      case (Suc j)
      with "1.prems" have "Suc j < length (stripEmphasis (b # s))"
        unfolding e by simp
      with False have "\<not> (stripEmphasis (b # s) ! j = CHR ''*''
          \<and> stripEmphasis (b # s) ! Suc j = CHR ''*'')"
        by (rule "1.IH"(2))
      then show ?thesis
        unfolding e Suc by simp
    qed
  qed
qed simp_all

lemma stripEmphasis_only_stars:
  "filter (\<lambda>c. c \<noteq> CHR ''*'') (stripEmphasis s) = filter (\<lambda>c. c \<noteq> CHR ''*'') s"
  by (induction s rule: stripEmphasis.induct) auto

lemma fillBlankQuestion_literal:
  assumes "firstExample t = Some example" "example \<noteq> []" "literalPattern (term_text t)"
  shows "fillBlankQuestion engine t index =
           Inr [FillBlank (''fill-'' @ decimal index)
                  (replaceLiteral (term_text t) (stripEmphasis example)) (term_text t)]"
  using assms by (simp add: fillBlankQuestion_def replaceTerm_def)

lemma fillBlankQuestion_none:
  assumes "\<not> truthy (firstExample t)"
  shows "fillBlankQuestion engine t index = Inr []"
  using assms by (auto simp: fillBlankQuestion_def truthy_def split: option.splits)

lemma ambiguous_fill:
  "fillBlankQuestion engine ambiguousTerm 0 =
     Inr [FillBlank ''fill-0'' ''The contract was _____ in places.'' ''ambiguous'']"
  by (simp add: fillBlankQuestion_def firstExample_def ambiguousTerm_def replaceTerm_def
      literalPattern_def syntaxCharacter_def canonicalize_def blankMarker_def
      decimal_digit digitChar_def)

text \<open>
  C3 (as amended). For every term whose details for its first meaning (index 0) hold a
  non-empty first example and whose text holds no syntax character of regular
  expressions, the fill-in-the-blank generator produces one question; its sentence is
  that example with the emphasis markers stripped and the occurrences of the term
  replaced, and its correct answer is the term text. Stripping leaves no two adjacent
  stars and removes nothing but stars. For a non-empty term text the replacement is the
  one the specification words: every case-insensitive occurrence, read from left to
  right, becomes the blank marker. A term without a (non-empty) first example for its
  first meaning gets no fill-in-the-blank question. The term \<open>ambiguous\<close> with the
  example \<open>The contract was **ambiguous** in places.\<close> gives the sentence
  \<open>The contract was _____ in places.\<close> and the correct answer \<open>ambiguous\<close>.
\<close>

theorem fillBlank_sentence:
  "(firstExample t = Some example \<and> example \<noteq> [] \<and> literalPattern (term_text t) \<longrightarrow>
      fillBlankQuestion engine t index =
        Inr [FillBlank (''fill-'' @ decimal index)
               (replaceLiteral (term_text t) (stripEmphasis example)) (term_text t)]
      \<and> (term_text t \<noteq> [] \<longrightarrow>
            replaceLiteral (term_text t) (stripEmphasis example) =
              blankOccurrences (term_text t) (stripEmphasis example))
      \<and> (\<forall>i. Suc i < length (stripEmphasis example) \<longrightarrow>
             \<not> (stripEmphasis example ! i = CHR ''*''
                \<and> stripEmphasis example ! Suc i = CHR ''*''))
      \<and> filter (\<lambda>c. c \<noteq> CHR ''*'') (stripEmphasis example)
           = filter (\<lambda>c. c \<noteq> CHR ''*'') example)
   \<and> (\<not> truthy (firstExample t) \<longrightarrow> fillBlankQuestion engine t index = Inr [])
   \<and> fillBlankQuestion engine ambiguousTerm 0 =
       Inr [FillBlank ''fill-0'' ''The contract was _____ in places.'' ''ambiguous'']"
  using fillBlankQuestion_literal [of t example engine index]
    fillBlankQuestion_none [of t engine index]
    replaceLiteral_spec [of "term_text t" "stripEmphasis example"]
    stripEmphasis_no_markers [of _ example] stripEmphasis_only_stars [of example]
    ambiguous_fill [of engine]
  by blast

theorem fillBlank_sentence_witness:
  "firstExample ambiguousTerm = Some ''The contract was **ambiguous** in places.''
   \<and> ''The contract was **ambiguous** in places.'' \<noteq> []
   \<and> literalPattern (term_text ambiguousTerm)
   \<and> term_text ambiguousTerm \<noteq> []
   \<and> stripEmphasis ''The contract was **ambiguous** in places.''
       = ''The contract was ambiguous in places.''
   \<and> blankOccurrences (term_text ambiguousTerm) ''The contract was ambiguous in places.''
       = ''The contract was _____ in places.''
   \<and> fillBlankQuestion noEngine ambiguousTerm 0 =
       Inr [FillBlank ''fill-0'' ''The contract was _____ in places.'' ''ambiguous'']
   \<and> \<not> truthy (firstExample lucidTerm)
   \<and> fillBlankQuestion noEngine lucidTerm 1 = Inr []"
proof -
  have 1: "firstExample ambiguousTerm = Some ''The contract was **ambiguous** in places.''"
    by (simp add: firstExample_def ambiguousTerm_def)
  have 2: "literalPattern (term_text ambiguousTerm)" "term_text ambiguousTerm \<noteq> []"
    by (simp_all add: ambiguousTerm_def literalPattern_def syntaxCharacter_def)
  have 3: "stripEmphasis ''The contract was **ambiguous** in places.''
       = ''The contract was ambiguous in places.''"
    by simp
  have 4: "replaceLiteral (term_text ambiguousTerm) ''The contract was ambiguous in places.''
       = ''The contract was _____ in places.''"
    by (simp add: ambiguousTerm_def canonicalize_def blankMarker_def)
  have 5: "\<not> truthy (firstExample lucidTerm)"
    by (simp add: truthy_def firstExample_def lucidTerm_def)
  from fillBlank_sentence [of ambiguousTerm "''The contract was **ambiguous** in places.''"
      noEngine 0]
    fillBlank_sentence [of lucidTerm "[]" noEngine 1] 1 2 3 4 5
  show ?thesis
    by (simp add: decimal_digit digitChar_def)
qed

text \<open>A term that has a stored example, for its second meaning only, gets no
  fill-in-the-blank question.\<close>

theorem fillBlank_sentence_counterexample:
  "fmlookup (the (details bankTerm)) 1 = Some \<lparr>examples = [''We sat on the bank of the river.'']\<rparr>
   \<and> fillBlankQuestion noEngine bankTerm 0 = Inr []"
  by (simp add: bankTerm_def fillBlankQuestion_def firstExample_def)

text \<open>
  C10. The claim is that a non-empty list of terms, each with a meaning, always yields an
  assessment with at least one question. The composer does not escape the term text
  before it builds a regular expression from it: for the single term \<open>C++\<close> with an
  example, the constructor rejects the source (the second \<open>+\<close> has nothing to repeat)
  and the composer ends with that error instead of an assessment, whatever the draws.
  The lemma \<open>generateAssessment_nonempty\<close> after it shows what holds: when every term
  that has an example has a text without syntax characters, an assessment with at least
  one question is returned.
\<close>

theorem generateAssessment_syntax_error:
  "generateAssessmentFromTerms engine g [cppTerm] = Inl SyntaxError"
  by (simp add: generateAssessmentFromTerms_def collectQuestions_def shuffleArray_single
      matchQuestion_def indexed_def mcqQuestion_def fillBlankQuestion_def firstExample_def
      cppTerm_def replaceTerm_def literalPattern_def syntaxCharacter_def)

lemma mcqQuestion_total:
  assumes "meanings X \<noteq> []"
  shows "\<exists>qs g'. mcqQuestion pool X index g = Inr (qs, g')"
  using firstDefinition_hd [OF assms]
  by (simp add: mcqQuestion_def Let_def split: prod.splits)

lemma fillBlankQuestion_total:
  assumes "truthy (firstExample t) \<longrightarrow> literalPattern (term_text t)"
  shows "\<exists>qs. fillBlankQuestion engine t index = Inr qs"
  using assms
  by (auto simp: fillBlankQuestion_def replaceTerm_def truthy_def split: option.splits)

lemma forEachTerm_total:
  assumes "\<forall>(t, index) \<in> set its.
             meanings t \<noteq> [] \<and> (truthy (firstExample t) \<longrightarrow> literalPattern (term_text t))"
  shows "\<exists>qs g'. forEachTerm engine pool its acc g = Inr (qs, g')"
  using assms
proof (induction its arbitrary: acc g)
  case Nil
  then show ?case by simp
next
  case (Cons a its)
  obtain t index where a: "a = (t, index)" by (cases a)
  with Cons.prems have t: "meanings t \<noteq> []"
    "truthy (firstExample t) \<longrightarrow> literalPattern (term_text t)"
    by simp_all
  from mcqQuestion_total [OF t(1)] obtain mcq g1 where
    m: "mcqQuestion pool t index g = Inr (mcq, g1)" by blast
  from fillBlankQuestion_total [OF t(2)] obtain fill where
    f: "fillBlankQuestion engine t index = Inr fill" by blast
  from Cons.prems have "\<forall>(t, index) \<in> set its.
             meanings t \<noteq> [] \<and> (truthy (firstExample t) \<longrightarrow> literalPattern (term_text t))"
    by simp
  from Cons.IH [OF this] show ?case
    by (simp add: a m f)
qed

lemma matchQuestion_total:
  assumes "\<forall>t \<in> set pool. meanings t \<noteq> []"
  shows "\<exists>qs. matchQuestion pool = Inr qs"
proof (cases "4 \<le> length pool")
  case True
  have "\<forall>t \<in> set (take 4 pool). meanings t \<noteq> []"
    using assms set_take_subset [of 4 pool] by blast
  with True show ?thesis
    by (simp add: matchQuestion_explicit)
next
  case False
  then show ?thesis by (simp add: matchQuestion_def)
qed

lemma set_indexed: "(t, i) \<in> set (indexed xs) \<Longrightarrow> t \<in> set xs"
  unfolding indexed_def by (rule set_zip_leftD)

lemma indexed_Nil_iff: "indexed xs = [] \<longleftrightarrow> xs = []"
  by (cases xs) (simp_all add: indexed_def upt_rec)

lemma generateAssessment_nonempty:
  assumes "terms \<noteq> []"
    and "\<forall>t \<in> set terms. meanings t \<noteq> []"
    and "\<forall>t \<in> set terms. truthy (firstExample t) \<longrightarrow> literalPattern (term_text t)"
  shows "\<exists>a. generateAssessmentFromTerms engine g terms = Inr a \<and> questions a \<noteq> []"
proof -
  obtain pool g1 where s: "shuffleArray g terms = (pool, g1)"
    by (cases "shuffleArray g terms")
  then have sp: "set pool = set terms" and np: "pool \<noteq> []"
    using shuffleArray_set [of g terms] shuffleArray_length [of g terms] assms(1) by auto
  from matchQuestion_total [of pool] assms(2) sp obtain m where
    m: "matchQuestion pool = Inr m" by auto
  have "\<forall>(t, index) \<in> set (indexed pool).
             meanings t \<noteq> [] \<and> (truthy (firstExample t) \<longrightarrow> literalPattern (term_text t))"
    using assms(2,3) sp by (auto dest: set_indexed)
  from forEachTerm_total [OF this] obtain qs g2 where
    f: "forEachTerm engine pool (indexed pool) m g1 = Inr (qs, g2)" by blast
  have c: "collectQuestions engine g terms = Inr (qs, g2)"
    by (simp add: collectQuestions_def s m f)
  from np obtain t index where "(t, index) \<in> set (indexed pool)"
    by (cases "indexed pool") (auto simp: indexed_Nil_iff)
  with forEachTerm_new [OF f] have "qs \<noteq> []"
    by fastforce
  then have "fst (shuffleArray g2 qs) \<noteq> []"
    using shuffleArray_length [of g2 qs] by (metis length_0_conv)
  moreover have "0 < targetQuestionCount (length terms)"
    by (simp add: targetQuestionCount_eq)
  ultimately have "take (targetQuestionCount (length terms)) (fst (shuffleArray g2 qs)) \<noteq> []"
    by (cases "fst (shuffleArray g2 qs)") (auto simp: take_Cons')
  then show ?thesis
    by (simp add: generateAssessmentFromTerms_def c Let_def)
qed

section \<open>The match question in the returned assessment\<close>

lemma shuffleLoop_zero: "snd (shuffleLoop (\<lambda>i. 0) n xs) = (\<lambda>i. 0)"
  by (induction n arbitrary: xs) (simp_all add: randomBelow_def)

lemma shuffleArray_zero: "snd (shuffleArray (\<lambda>i. 0) xs) = (\<lambda>i. 0)"
  by (simp add: shuffleArray_def shuffleLoop_zero)

lemma shuffleLoop_zero_rotate:
  "k \<le> length zs \<Longrightarrow>
   fst (shuffleLoop (\<lambda>i. 0) (Suc k) (a # zs)) = take k zs @ a # drop k zs"
proof (induction k arbitrary: a zs)
  case 0
  then show ?case by (simp add: randomBelow_def)
next
  case (Suc k)
  then have k: "k < length zs" by simp
  have "fst (shuffleLoop (\<lambda>i. 0) (Suc (Suc k)) (a # zs))
        = fst (shuffleLoop (\<lambda>i. 0) (Suc k) (zs ! k # zs[k := a]))"
    by (subst shuffleLoop.simps) (simp add: randomBelow_def del: shuffleLoop.simps)
  also have "\<dots> = take k (zs[k := a]) @ zs ! k # drop k (zs[k := a])"
    using k by (intro Suc.IH) simp
  also have "\<dots> = take k zs @ zs ! k # a # drop (Suc k) zs"
    using k by (simp add: drop_update_swap upd_conv_take_nth_drop)
  also have "\<dots> = take (Suc k) zs @ a # drop (Suc k) zs"
    using k by (simp add: take_Suc_conv_app_nth)
  finally show ?case .
qed

lemma shuffleArray_zero_rotate: "shuffleArray (\<lambda>i. 0) (a # zs) = (zs @ [a], \<lambda>i. 0)"
proof -
  have "fst (shuffleArray (\<lambda>i. 0) (a # zs)) = zs @ [a]"
    using shuffleLoop_zero_rotate [of "length zs" zs a] by (simp add: shuffleArray_def)
  then show ?thesis
    using shuffleArray_zero [of "a # zs"] by (metis prod.collapse)
qed

lemma mcqQuestion_zero:
  assumes "4 \<le> length pool"
    and "3 \<le> length (filter (\<lambda>u. term_text u \<noteq> term_text X) pool)"
    and "meanings X \<noteq> []"
  shows "\<exists>q. mcqQuestion pool X index (\<lambda>i. 0) = Inr ([q], \<lambda>i. 0)
           \<and> is_MCQ q \<and> qid q = ''mcq-'' @ decimal index"
proof -
  let ?rest = "filter (\<lambda>u. term_text u \<noteq> term_text X) pool"
  obtain sh where s: "shuffleArray (\<lambda>i. 0) ?rest = (sh, \<lambda>i. 0)"
    using shuffleArray_zero [of ?rest] by (cases "shuffleArray (\<lambda>i. 0) ?rest") auto
  then have "length sh = length ?rest"
    using shuffleArray_length [of "\<lambda>i. 0" ?rest] by simp
  with assms(2) have l: "length (take 3 sh) = 3"
    by simp
  obtain opts where o:
    "shuffleArray (\<lambda>i. 0) (term_text X # map term_text (take 3 sh)) = (opts, \<lambda>i. 0)"
    using shuffleArray_zero [of "term_text X # map term_text (take 3 sh)"]
    by (cases "shuffleArray (\<lambda>i. 0) (term_text X # map term_text (take 3 sh))") auto
  show ?thesis
    using assms(1) s l o firstDefinition_hd [OF assms(3)]
    by (simp add: mcqQuestion_def Let_def del: length_take)
qed

lemma mcqQuestion_zero_skip:
  assumes "length (filter (\<lambda>u. term_text u \<noteq> term_text X) pool) < 3"
  shows "mcqQuestion pool X index (\<lambda>i. 0) = Inr ([], \<lambda>i. 0)"
proof (cases "4 \<le> length pool")
  case False
  then show ?thesis by (simp add: mcqQuestion_def)
next
  case True
  let ?rest = "filter (\<lambda>u. term_text u \<noteq> term_text X) pool"
  obtain sh where s: "shuffleArray (\<lambda>i. 0) ?rest = (sh, \<lambda>i. 0)"
    using shuffleArray_zero [of ?rest] by (cases "shuffleArray (\<lambda>i. 0) ?rest") auto
  then have "length sh = length ?rest"
    using shuffleArray_length [of "\<lambda>i. 0" ?rest] by simp
  with assms have "length (take 3 sh) \<noteq> 3"
    by simp
  then show ?thesis
    using True s by (simp add: mcqQuestion_def Let_def del: length_take)
qed

lemma qid_writtenQuestion: "qid (writtenQuestion t index) = ''written-'' @ decimal index"
  by (simp add: writtenQuestion_def)

lemma is_Written_writtenQuestion: "\<not> is_Match (writtenQuestion t index)"
  by (simp add: writtenQuestion_def)

lemma fourTerms_returned:
  "map_sum id (map qid \<circ> questions) (generateAssessmentFromTerms noEngine firstIndex fourTerms) =
     Inr [''mcq-0'', ''written-0'', ''mcq-1'', ''written-1'', ''mcq-2'', ''written-2'', ''mcq-3'']
   \<and> map_sum id (filter is_Match \<circ> questions)
        (generateAssessmentFromTerms noEngine firstIndex fourTerms) = Inr []"
proof -
  let ?pool = "[lucidTerm, terseTerm, candidTerm, ambiguousTerm]"
  let ?z = "(\<lambda>i. 0) :: rng"
  have sp: "shuffleArray ?z fourTerms = (?pool, ?z)"
    by (simp add: fourTerms_def shuffleArray_four_zero)
  have mean: "\<forall>t \<in> set (take 4 ?pool). meanings t \<noteq> []"
    by (simp add: ambiguousTerm_def lucidTerm_def terseTerm_def candidTerm_def)
  obtain m where m: "matchQuestion ?pool = Inr [m]" "is_Match m"
    using matchQuestion_explicit [of ?pool] mean by simp
  have texts: "term_text lucidTerm = ''lucid''" "term_text terseTerm = ''terse''"
    "term_text candidTerm = ''candid''" "term_text ambiguousTerm = ''ambiguous''"
    by (simp_all add: ambiguousTerm_def lucidTerm_def terseTerm_def candidTerm_def)
  have mns: "meanings lucidTerm \<noteq> []" "meanings terseTerm \<noteq> []"
    "meanings candidTerm \<noteq> []" "meanings ambiguousTerm \<noteq> []"
    by (simp_all add: ambiguousTerm_def lucidTerm_def terseTerm_def candidTerm_def)
  have p4: "4 \<le> length ?pool"
    by simp
  have r: "3 \<le> length (filter (\<lambda>u. term_text u \<noteq> term_text lucidTerm) ?pool)"
    "3 \<le> length (filter (\<lambda>u. term_text u \<noteq> term_text terseTerm) ?pool)"
    "3 \<le> length (filter (\<lambda>u. term_text u \<noteq> term_text candidTerm) ?pool)"
    "3 \<le> length (filter (\<lambda>u. term_text u \<noteq> term_text ambiguousTerm) ?pool)"
    by (simp_all add: texts)
  have d: "decimal 0 = ''0''" "decimal 1 = ''1''" "decimal 2 = ''2''" "decimal 3 = ''3''"
    by (simp_all add: decimal_digit digitChar_def)
  obtain q0 where q0: "mcqQuestion ?pool lucidTerm 0 ?z = Inr ([q0], ?z)" "is_MCQ q0"
    "qid q0 = ''mcq-0''"
    using mcqQuestion_zero [OF p4 r(1) mns(1), of 0] unfolding d by auto
  obtain q1 where q1: "mcqQuestion ?pool terseTerm 1 ?z = Inr ([q1], ?z)" "is_MCQ q1"
    "qid q1 = ''mcq-1''"
    using mcqQuestion_zero [OF p4 r(2) mns(2), of 1] unfolding d by auto
  obtain q2 where q2: "mcqQuestion ?pool candidTerm 2 ?z = Inr ([q2], ?z)" "is_MCQ q2"
    "qid q2 = ''mcq-2''"
    using mcqQuestion_zero [OF p4 r(3) mns(3), of 2] unfolding d by auto
  obtain q3 where q3: "mcqQuestion ?pool ambiguousTerm 3 ?z = Inr ([q3], ?z)" "is_MCQ q3"
    "qid q3 = ''mcq-3''"
    using mcqQuestion_zero [OF p4 r(4) mns(4), of 3] unfolding d by auto
  have nofill: "fillBlankQuestion noEngine lucidTerm 0 = Inr []"
    "fillBlankQuestion noEngine terseTerm 1 = Inr []"
    "fillBlankQuestion noEngine candidTerm 2 = Inr []"
    by (simp_all add: fillBlankQuestion_def firstExample_def lucidTerm_def terseTerm_def
        candidTerm_def)
  have "firstExample ambiguousTerm = Some ''The contract was **ambiguous** in places.''"
    by (simp add: firstExample_def ambiguousTerm_def)
  moreover have "literalPattern (term_text ambiguousTerm)"
    by (simp add: texts literalPattern_def syntaxCharacter_def)
  ultimately obtain f3 where f3: "fillBlankQuestion noEngine ambiguousTerm 3 = Inr [f3]"
    by (simp add: fillBlankQuestion_def replaceTerm_def)
  let ?collected = "[m, q0, writtenQuestion lucidTerm 0, q1, writtenQuestion terseTerm 1,
      q2, writtenQuestion candidTerm 2, q3, f3, writtenQuestion ambiguousTerm 3]"
  have c: "collectQuestions noEngine firstIndex fourTerms = Inr (?collected, ?z)"
    unfolding collectQuestions_def firstIndex_def sp
    using m(1) q0(1) q1(1) q2(1) q3(1) nofill f3 by (simp add: indexed_4)
  have g: "generateAssessmentFromTerms noEngine firstIndex fourTerms =
      Inr \<lparr>title = ''Vocabulary Assessment (7 Questions)'',
           questions = [q0, writtenQuestion lucidTerm 0, q1, writtenQuestion terseTerm 1,
             q2, writtenQuestion candidTerm 2, q3]\<rparr>"
    unfolding generateAssessmentFromTerms_def c
    by (simp add: shuffleArray_zero_rotate targetQuestionCount_eq fourTerms_def decimal_digit
        digitChar_def)
  have nm: "\<not> is_Match q0" "\<not> is_Match q1" "\<not> is_Match q2" "\<not> is_Match q3"
    using q0(2) q1(2) q2(2) q3(2) by (auto simp: is_MCQ_def)
  show ?thesis
    unfolding g using d
    by (simp add: qid_writtenQuestion is_Written_writtenQuestion q0(3) q1(3) q2(3) q3(3) nm)
qed

lemma samePool_returned:
  "map_sum id (map qid \<circ> questions) (generateAssessmentFromTerms noEngine firstIndex samePool) =
     Inr [''written-0'', ''written-1'', ''written-2'', ''written-3'', ''match-q1'']"
proof -
  let ?z = "(\<lambda>i. 0) :: rng"
  have sp: "shuffleArray ?z samePool = (samePool, ?z)"
    by (simp add: samePool_def shuffleArray_four_zero)
  have mean: "\<forall>t \<in> set (take 4 samePool). meanings t \<noteq> []"
    by (simp add: samePool_def lucidTerm_def)
  obtain m where m: "matchQuestion samePool = Inr [m]" "qid m = ''match-q1''"
    using matchQuestion_explicit [of samePool] mean by (simp add: samePool_def)
  have skip: "mcqQuestion samePool lucidTerm index ?z = Inr ([], ?z)" for index
    by (rule mcqQuestion_zero_skip) (simp add: samePool_def)
  have nofill: "fillBlankQuestion noEngine lucidTerm index = Inr []" for index
    by (simp add: fillBlankQuestion_def firstExample_def lucidTerm_def)
  let ?collected = "[m, writtenQuestion lucidTerm 0, writtenQuestion lucidTerm 1,
      writtenQuestion lucidTerm 2, writtenQuestion lucidTerm 3]"
  have "forEachTerm noEngine samePool (indexed samePool) [m] ?z = Inr (?collected, ?z)"
    unfolding samePool_def indexed_4
    using skip [unfolded samePool_def, of 0] skip [unfolded samePool_def, of 1]
      skip [unfolded samePool_def, of 2] skip [unfolded samePool_def, of 3]
      nofill [of 0] nofill [of 1] nofill [of 2] nofill [of 3]
    by simp
  then have c: "collectQuestions noEngine firstIndex samePool = Inr (?collected, ?z)"
    unfolding collectQuestions_def firstIndex_def sp by (simp add: m)
  have g: "generateAssessmentFromTerms noEngine firstIndex samePool =
      Inr \<lparr>title = ''Vocabulary Assessment (5 Questions)'',
           questions = [writtenQuestion lucidTerm 0, writtenQuestion lucidTerm 1,
             writtenQuestion lucidTerm 2, writtenQuestion lucidTerm 3, m]\<rparr>"
    unfolding generateAssessmentFromTerms_def c
    by (simp add: shuffleArray_zero_rotate targetQuestionCount_eq samePool_def decimal_digit
        digitChar_def)
  show ?thesis
    unfolding g using m(2)
    by (simp add: qid_writtenQuestion decimal_digit digitChar_def)
qed

lemma noMeaning_error:
  "generateAssessmentFromTerms noEngine firstIndex [lucidTerm, terseTerm, candidTerm, noMeaningTerm]
     = Inl TypeError"
  by (simp add: generateAssessmentFromTerms_def collectQuestions_def firstIndex_def
      shuffleArray_four_zero matchQuestion_def matchTargetsOf_def indexed_4
      firstDefinition_def lucidTerm_def terseTerm_def candidTerm_def noMeaningTerm_def Let_def)

text \<open>
  C4 (as amended). For every list of at least 4 terms, each with at least one meaning, and
  every outcome of the shuffle, step 1 of the composer produces exactly one match
  question. It is built from the first 4 terms of the shuffled list: 4 items holding
  their texts and 4 targets holding their first definitions, in that order, with ids
  \<open>item-0\<close> to \<open>item-3\<close> and \<open>target-0\<close> to \<open>target-3\<close>; the correct-pairing map has
  the item ids as its keys, sends the id of the item at each position to the id of the
  target at that position, and is a bijection from the item ids onto the target ids. It
  is the first and the only match question among the questions collected. A returned
  assessment is the first \<open>min(\<lfloor>6n/5\<rfloor> + 3, 25)\<close> entries of a shuffle of the questions
  collected: it holds that match question when the shuffle puts it among those entries
  (always, when no more questions were collected) and no match question otherwise.
\<close>

theorem composer_match_question:
  assumes "4 \<le> length terms" and "\<forall>t \<in> set terms. meanings t \<noteq> []"
  shows "let shuffledTerms = fst (shuffleArray g terms)
         in \<exists>q. matchQuestion shuffledTerms = Inr [q] \<and> is_Match q
              \<and> length (items q) = 4 \<and> length (targets q) = 4
              \<and> map item_term (items q) = map term_text (take 4 shuffledTerms)
              \<and> map target_definition (targets q) =
                  map (\<lambda>t. meaning_definition (hd (meanings t))) (take 4 shuffledTerms)
              \<and> map item_id (items q) = [''item-0'', ''item-1'', ''item-2'', ''item-3'']
              \<and> map target_id (targets q) = [''target-0'', ''target-1'', ''target-2'', ''target-3'']
              \<and> fmdom (correctPairs q) = fset_of_list (map item_id (items q))
              \<and> (\<forall>i<4. fmlookup (correctPairs q) (item_id (items q ! i))
                           = Some (target_id (targets q ! i)))
              \<and> bij_betw (\<lambda>itemId. the (fmlookup (correctPairs q) itemId))
                    (set (map item_id (items q))) (set (map target_id (targets q)))
              \<and> (\<forall>qs g'. collectQuestions engine g terms = Inr (qs, g')
                     \<longrightarrow> hd qs = q \<and> filter is_Match qs = [q])
              \<and> (\<forall>a. generateAssessmentFromTerms engine g terms = Inr a
                     \<longrightarrow> (\<exists>qs g'. collectQuestions engine g terms = Inr (qs, g')
                            \<and> questions a =
                                take (min (length terms * 6 div 5 + 3) 25)
                                  (fst (shuffleArray g' qs))
                            \<and> filter is_Match (questions a) =
                                (if q \<in> set (questions a) then [q] else [])
                            \<and> (length qs \<le> min (length terms * 6 div 5 + 3) 25
                                 \<longrightarrow> q \<in> set (questions a))))"
proof -
  define shuffledTerms where "shuffledTerms = fst (shuffleArray g terms)"
  define q where "q =
     Match ''match-q1'' ''Match each term to its correct definition.''
            [MatchItem ''item-0'' (term_text (shuffledTerms ! 0)),
             MatchItem ''item-1'' (term_text (shuffledTerms ! 1)),
             MatchItem ''item-2'' (term_text (shuffledTerms ! 2)),
             MatchItem ''item-3'' (term_text (shuffledTerms ! 3))]
            [MatchTarget ''target-0'' (meaning_definition (hd (meanings (shuffledTerms ! 0)))),
             MatchTarget ''target-1'' (meaning_definition (hd (meanings (shuffledTerms ! 1)))),
             MatchTarget ''target-2'' (meaning_definition (hd (meanings (shuffledTerms ! 2)))),
             MatchTarget ''target-3'' (meaning_definition (hd (meanings (shuffledTerms ! 3))))]
            (fmupd ''item-3'' ''target-3'' (fmupd ''item-2'' ''target-2''
               (fmupd ''item-1'' ''target-1'' (fmupd ''item-0'' ''target-0'' fmempty))))"
  have len: "4 \<le> length shuffledTerms"
    using assms(1) by (simp add: shuffledTerms_def shuffleArray_length)
  have "set (take 4 shuffledTerms) \<subseteq> set terms"
    using set_take_subset [of 4 shuffledTerms] by (simp add: shuffledTerms_def shuffleArray_set)
  with assms(2) have mean: "\<forall>t \<in> set (take 4 shuffledTerms). meanings t \<noteq> []"
    by blast
  have mq: "matchQuestion shuffledTerms = Inr [q]"
    unfolding q_def using len mean by (rule matchQuestion_explicit)
  have t4: "take 4 shuffledTerms =
             [shuffledTerms ! 0, shuffledTerms ! 1, shuffledTerms ! 2, shuffledTerms ! 3]"
    using len by (rule take_4)
  have p1: "is_Match q" "length (items q) = 4" "length (targets q) = 4"
    "map item_id (items q) = [''item-0'', ''item-1'', ''item-2'', ''item-3'']"
    "map target_id (targets q) = [''target-0'', ''target-1'', ''target-2'', ''target-3'']"
    by (simp_all add: q_def)
  have p2: "map item_term (items q) = map term_text (take 4 shuffledTerms)"
    "map target_definition (targets q) =
       map (\<lambda>t. meaning_definition (hd (meanings t))) (take 4 shuffledTerms)"
    by (simp_all add: q_def t4)
  have p3: "fmdom (correctPairs q) = fset_of_list (map item_id (items q))"
    by (auto simp: q_def)
  have p4: "\<forall>i<4. fmlookup (correctPairs q) (item_id (items q ! i))
                           = Some (target_id (targets q ! i))"
    by (simp add: q_def numeral_nat less_Suc_eq)
  have p5: "bij_betw (\<lambda>itemId. the (fmlookup (correctPairs q) itemId))
                    (set (map item_id (items q))) (set (map target_id (targets q)))"
    by (simp add: q_def bij_betw_def inj_on_def)
  have p6: "hd qs = q \<and> filter is_Match qs = [q]"
    if c: "collectQuestions engine g terms = Inr (qs, g')" for qs g'
  proof -
    obtain g1 where s: "shuffleArray g terms = (shuffledTerms, g1)"
      by (cases "shuffleArray g terms") (simp add: shuffledTerms_def)
    from c s mq have "forEachTerm engine shuffledTerms (indexed shuffledTerms) [q] g1 = Inr (qs, g')"
      by (simp add: collectQuestions_def)
    then obtain new where "qs = [q] @ new" "\<forall>x \<in> set new. \<not> is_Match x"
      using forEachTerm_new by blast
    then show ?thesis
      using p1(1) by (simp add: filter_empty_conv)
  qed
  have p7: "\<exists>qs g'. collectQuestions engine g terms = Inr (qs, g')
              \<and> questions a =
                  take (min (length terms * 6 div 5 + 3) 25) (fst (shuffleArray g' qs))
              \<and> filter is_Match (questions a) = (if q \<in> set (questions a) then [q] else [])
              \<and> (length qs \<le> min (length terms * 6 div 5 + 3) 25 \<longrightarrow> q \<in> set (questions a))"
    if a: "generateAssessmentFromTerms engine g terms = Inr a" for a
  proof -
    let ?target = "min (length terms * 6 div 5 + 3) 25"
    from a obtain qs g' where c: "collectQuestions engine g terms = Inr (qs, g')"
      by (auto simp: generateAssessmentFromTerms_def split: sum.splits)
    with a have qa: "questions a = take ?target (fst (shuffleArray g' qs))"
      by (auto simp: generateAssessmentFromTerms_def Let_def targetQuestionCount_eq)
    have "mset (questions a) \<subseteq># mset (fst (shuffleArray g' qs))"
      unfolding qa by (metis append_take_drop_id mset_append mset_subset_eq_add_left)
    then have "mset (questions a) \<subseteq># mset qs"
      by (simp only: shuffleArray_mset)
    then have one: "filter is_Match (questions a) = [q] \<or> filter is_Match (questions a) = []"
      using p6 [OF c, THEN conjunct2] by (rule filter_Match_single)
    have mem: "q \<in> set (questions a) \<longleftrightarrow> q \<in> set (filter is_Match (questions a))"
      using p1(1) by simp
    have f: "filter is_Match (questions a) = (if q \<in> set (questions a) then [q] else [])"
    proof (cases "filter is_Match (questions a) = [q]")
      case True
      then show ?thesis unfolding mem by simp
    next
      case False
      with one have "filter is_Match (questions a) = []" by simp
      then show ?thesis unfolding mem by simp
    qed
    have all: "q \<in> set (questions a)" if "length qs \<le> ?target"
    proof -
      from that have "questions a = fst (shuffleArray g' qs)"
        unfolding qa by (simp add: shuffleArray_length)
      then have "set (questions a) = set qs"
        by (simp only: shuffleArray_set)
      moreover have "q \<in> set (filter is_Match qs)"
        using p6 [OF c] by simp
      ultimately show ?thesis by simp
    qed
    from c qa f all show ?thesis by blast
  qed
  show ?thesis
    unfolding Let_def shuffledTerms_def [symmetric]
    by (intro exI [of _ q] conjI allI impI)
      (fact mq p1 p2 p3 p5 | erule p4 [rule_format] | erule p6 [THEN conjunct1]
        | erule p6 [THEN conjunct2] | erule p7)+
qed

theorem composer_match_question_witness:
  "4 \<le> length fourTerms
   \<and> meanings ambiguousTerm \<noteq> [] \<and> meanings lucidTerm \<noteq> []
   \<and> meanings terseTerm \<noteq> [] \<and> meanings candidTerm \<noteq> []
   \<and> matchQuestion (fst (shuffleArray firstIndex fourTerms)) =
       Inr [Match ''match-q1'' ''Match each term to its correct definition.''
              [MatchItem ''item-0'' ''lucid'', MatchItem ''item-1'' ''terse'',
               MatchItem ''item-2'' ''candid'', MatchItem ''item-3'' ''ambiguous'']
              [MatchTarget ''target-0'' ''easy to understand'',
               MatchTarget ''target-1'' ''using few words'',
               MatchTarget ''target-2'' ''truthful and direct'',
               MatchTarget ''target-3'' ''open to more than one interpretation'']
              (fmupd ''item-3'' ''target-3'' (fmupd ''item-2'' ''target-2''
                 (fmupd ''item-1'' ''target-1'' (fmupd ''item-0'' ''target-0'' fmempty))))]
   \<and> 4 \<le> length samePool \<and> meanings lucidTerm \<noteq> []
   \<and> map_sum id (map qid \<circ> questions)
        (generateAssessmentFromTerms noEngine firstIndex samePool) =
       Inr [''written-0'', ''written-1'', ''written-2'', ''written-3'', ''match-q1'']"
proof -
  have 1: "4 \<le> length fourTerms"
    by (simp add: fourTerms_def)
  have 2: "\<forall>t \<in> set fourTerms. meanings t \<noteq> []"
    by (simp add: fourTerms_def ambiguousTerm_def lucidTerm_def terseTerm_def candidTerm_def)
  have 3: "fst (shuffleArray firstIndex fourTerms) = [lucidTerm, terseTerm, candidTerm, ambiguousTerm]"
    by (simp add: fourTerms_def shuffleArray_four_firstIndex)
  have 4: "matchQuestion [lucidTerm, terseTerm, candidTerm, ambiguousTerm] =
       Inr [Match ''match-q1'' ''Match each term to its correct definition.''
              [MatchItem ''item-0'' ''lucid'', MatchItem ''item-1'' ''terse'',
               MatchItem ''item-2'' ''candid'', MatchItem ''item-3'' ''ambiguous'']
              [MatchTarget ''target-0'' ''easy to understand'',
               MatchTarget ''target-1'' ''using few words'',
               MatchTarget ''target-2'' ''truthful and direct'',
               MatchTarget ''target-3'' ''open to more than one interpretation'']
              (fmupd ''item-3'' ''target-3'' (fmupd ''item-2'' ''target-2''
                 (fmupd ''item-1'' ''target-1'' (fmupd ''item-0'' ''target-0'' fmempty))))]"
    by (simp add: matchQuestion_def matchItemsOf_def matchTargetsOf_def correctPairsOf_def
        indexed_4 firstDefinition_def decimal_digit digitChar_def
        ambiguousTerm_def lucidTerm_def terseTerm_def candidTerm_def)
  have 5: "4 \<le> length samePool"
    by (simp add: samePool_def)
  have 6: "\<forall>t \<in> set samePool. meanings t \<noteq> []"
    by (simp add: samePool_def lucidTerm_def)
  from composer_match_question [OF 1 2, of firstIndex noEngine]
    composer_match_question [OF 5 6, of firstIndex noEngine] 1 2 3 4 5 6 samePool_returned
  show ?thesis
    by (simp add: fourTerms_def samePool_def)
qed

text \<open>
  For four terms with four texts and the draws that always give index 0, ten questions
  are collected, the final shuffle moves the match question to the end, and the seven
  questions returned hold no match question. With a term without a meaning among the
  first four, the composer ends with a TypeError.
\<close>

theorem composer_match_question_counterexample:
  "4 \<le> length fourTerms
   \<and> map_sum id (map qid \<circ> questions)
        (generateAssessmentFromTerms noEngine firstIndex fourTerms) =
       Inr [''mcq-0'', ''written-0'', ''mcq-1'', ''written-1'', ''mcq-2'', ''written-2'',
            ''mcq-3'']
   \<and> map_sum id (filter is_Match \<circ> questions)
        (generateAssessmentFromTerms noEngine firstIndex fourTerms) = Inr []
   \<and> 4 \<le> length [lucidTerm, terseTerm, candidTerm, noMeaningTerm]
   \<and> generateAssessmentFromTerms noEngine firstIndex
        [lucidTerm, terseTerm, candidTerm, noMeaningTerm] = Inl TypeError"
  using fourTerms_returned noMeaning_error by (simp add: fourTerms_def)

end
